theory Spec2Isabelle
  imports Complex_Main "HOL-Library.Log_Nat"
begin

section \<open>Python values used by \<open>setup.py\<close>\<close>

text \<open>
  The model covers the two places of \<open>setup.py\<close> that take decisions: the resolution of
  the build target at module level (lines 27--39 and 61--186) and the job throttling in
  \<open>NinjaBuildExtension.__init__\<close> (lines 199--216).

  Python's \<open>int\<close> is \<open>int\<close>, \<open>os.environ\<close> is a map from names to strings, and the
  exceptions the code can raise are the values of \<open>error\<close>. A Python \<open>float\<close> is a
  rational number. The constructor is modelled twice: in exact arithmetic (the literal
  \<open>0.8\<close> is \<open>8 / 10\<close>, \<open>/\<close> is exact division), which is the model the claims are
  stated on, and with every floating-point operation rounded to binary64
  (\<open>NinjaBuildExtension_init_binary64\<close>). Theorem \<open>binary64_agrees\<close> shows that the two
  do the same on every host with fewer than \<open>2^50\<close> cores and less than \<open>2^52\<close> bytes
  of available memory.
\<close>

datatype error =
    TypeError
  | ValueError
  | NameError string
  | NotImplementedError string
  | AssertionError
  | AttributeError
  | IndexError
  | InvalidVersion

type_synonym environ = "string \<rightharpoonup> string"

definition environ_get :: "environ \<Rightarrow> string \<Rightarrow> string \<Rightarrow> string" where
  \<comment> \<open>\<open>os.environ.get(key, default)\<close>\<close>
  "environ_get env key dflt = (case env key of None \<Rightarrow> dflt | Some v \<Rightarrow> v)"

subsection \<open>\<open>str(n)\<close> and \<open>int(s)\<close>\<close>

definition digit_char :: "nat \<Rightarrow> char" where
  "digit_char d = char_of (48 + d)"

definition is_digit :: "char \<Rightarrow> bool" where
  "is_digit c = (48 \<le> (of_char c :: nat) \<and> (of_char c :: nat) \<le> 57)"

definition digit_val :: "char \<Rightarrow> nat" where
  "digit_val c = of_char c - 48"

fun str_nat :: "nat \<Rightarrow> string" where
  "str_nat n = (if n < 10 then [digit_char n] else str_nat (n div 10) @ [digit_char (n mod 10)])"

declare str_nat.simps [simp del]

definition str :: "int \<Rightarrow> string" where
  \<comment> \<open>\<open>str(i)\<close> of a Python \<open>int\<close>: decimal, with a minus sign when negative\<close>
  "str i = (if i < 0 then CHR ''-'' # str_nat (nat (- i)) else str_nat (nat i))"

definition is_space :: "char \<Rightarrow> bool" where
  \<comment> \<open>the ASCII white space \<open>int()\<close> skips: space, \<open>\t \n \v \f \r\<close>\<close>
  "is_space c = (c = CHR '' '' \<or> (9 \<le> (of_char c :: nat) \<and> (of_char c :: nat) \<le> 13))"

definition strip :: "string \<Rightarrow> string" where
  "strip s = rev (dropWhile is_space (rev (dropWhile is_space s)))"

fun parse_digits :: "nat \<Rightarrow> string \<Rightarrow> nat option" where
  \<comment> \<open>decimal digits, a single underscore allowed between two digits\<close>
  "parse_digits acc [] = Some acc"
| "parse_digits acc (c # cs) =
     (if is_digit c then parse_digits (10 * acc + digit_val c) cs
      else if c = CHR ''_'' then
        (case cs of [] \<Rightarrow> None | d # _ \<Rightarrow> if is_digit d then parse_digits acc cs else None)
      else None)"

definition parse_nat :: "string \<Rightarrow> nat option" where
  "parse_nat s = (case s of [] \<Rightarrow> None | c # _ \<Rightarrow> if is_digit c then parse_digits 0 s else None)"

definition int_of_str :: "string \<Rightarrow> error + int" where
  \<comment> \<open>\<open>int(s)\<close> of an ASCII string, base 10: white space around the number, an optional
      sign, digits; anything else is a \<open>ValueError\<close>. The limit on the number of digits
      (4300 by default since Python 3.11) is not modelled.\<close>
  "int_of_str s =
     (let t = strip s;
          r = (case t of [] \<Rightarrow> None
               | c # cs \<Rightarrow>
                   if c = CHR ''-'' then map_option (\<lambda>n. - int n) (parse_nat cs)
                   else if c = CHR ''+'' then map_option int (parse_nat cs)
                   else map_option int (parse_nat t))
      in case r of None \<Rightarrow> Inl ValueError | Some i \<Rightarrow> Inr i)"

definition int_of_float :: "rat \<Rightarrow> int" where
  \<comment> \<open>\<open>int(x)\<close> of a Python \<open>float\<close>: truncation towards zero\<close>
  "int_of_float x = (if 0 \<le> x then \<lfloor>x\<rfloor> else \<lceil>x\<rceil>)"

subsection \<open>Rounding to binary64\<close>

text \<open>
  Round to nearest, ties to even, with 53 significant bits. The exponent is not bounded:
  overflow (from \<open>2^1024\<close> on, where Python raises \<open>OverflowError\<close> or gives \<open>inf\<close>) and
  subnormal numbers (below \<open>2^-1022\<close>) are not modelled. \<open>exponent x\<close> is the \<open>e\<close> with
  \<open>2^e \<le> x < 2^(e+1)\<close> for a positive \<open>x\<close>.
\<close>

definition round_half_even :: "rat \<Rightarrow> int" where
  "round_half_even x =
     (let f = \<lfloor>x\<rfloor>; d = x - of_int f
      in if d < 1 / 2 then f else if 1 / 2 < d then f + 1 else if even f then f else f + 1)"

definition exponent :: "rat \<Rightarrow> int" where
  "exponent x =
     (case quotient_of x of
        (p, q) \<Rightarrow> let e = bitlen p - bitlen q in if 2 powi e \<le> x then e else e - 1)"

definition round_pos :: "rat \<Rightarrow> rat" where
  "round_pos x =
     (let u = 2 powi (exponent x - 52) in of_int (round_half_even (x / u)) * u)"

definition binary64 :: "rat \<Rightarrow> rat" where
  "binary64 x = (if x = 0 then 0 else if 0 < x then round_pos x else - round_pos (- x))"

definition float_0_8 :: rat where
  \<comment> \<open>the binary64 value of the literal \<open>0.8\<close>\<close>
  "float_0_8 = 3602879701896397 / 2 ^ 52"

section \<open>The job throttling of \<open>NinjaBuildExtension.__init__\<close>\<close>

text \<open>
  What the constructor reads from the machine: \<open>os.cpu_count()\<close>, which is \<open>None\<close> when
  the count cannot be determined, and \<open>psutil.virtual_memory().available\<close> in bytes.
  The import of \<open>psutil\<close> is taken to succeed, and \<open>super().__init__\<close>, which runs after
  the lines modelled here, is not part of the model.
\<close>

record host =
  cpu_count :: "nat option"
  available :: nat

definition max_num_jobs_cores :: "nat \<Rightarrow> rat" where
  \<comment> \<open>\<open>max(1, os.cpu_count()*0.8)\<close>\<close>
  "max_num_jobs_cores n = max 1 (of_nat n * (8 / 10))"

definition free_memory_gb :: "nat \<Rightarrow> rat" where
  \<comment> \<open>\<open>psutil.virtual_memory().available / (1024 ** 3)\<close>\<close>
  "free_memory_gb a = of_nat a / (1024 ^ 3)"

definition max_num_jobs_memory :: "nat \<Rightarrow> int" where
  \<comment> \<open>\<open>int(free_memory_gb / 9)\<close>\<close>
  "max_num_jobs_memory a = int_of_float (free_memory_gb a / 9)"

definition max_jobs :: "nat \<Rightarrow> nat \<Rightarrow> int" where
  \<comment> \<open>\<open>int(max(1, min(max_num_jobs_cores, max_num_jobs_memory)))\<close>\<close>
  "max_jobs n a =
     int_of_float (max 1 (min (max_num_jobs_cores n) (of_int (max_num_jobs_memory a))))"

definition requested_jobs :: "environ \<Rightarrow> error + int" where
  \<comment> \<open>\<open>int(os.environ.get("MAX_JOBS", '1'))\<close>\<close>
  "requested_jobs env = int_of_str (environ_get env ''MAX_JOBS'' ''1'')"

definition NinjaBuildExtension_init :: "host \<Rightarrow> environ \<Rightarrow> error + environ" where
  \<comment> \<open>lines 202--214; the result is \<open>os.environ\<close> as \<open>super().__init__\<close> finds it\<close>
  "NinjaBuildExtension_init h env =
     (case cpu_count h of
        None \<Rightarrow> Inl TypeError
      | Some n \<Rightarrow>
          (case requested_jobs env of
             Inl e \<Rightarrow> Inl e
           | Inr req \<Rightarrow>
               if of_int req < max_num_jobs_cores n
               then Inr (env(''MAX_JOBS'' \<mapsto> str (max_jobs n (available h))))
               else Inr env))"

text \<open>
  The same computation with the rounding of each floating-point operation: the conversion
  of \<open>os.cpu_count()\<close> to a float and its product with \<open>0.8\<close>, the true division of
  two integers, and the division of a float by 9. Comparisons between an \<open>int\<close> and a
  \<open>float\<close>, \<open>min\<close>, \<open>max\<close> and \<open>int()\<close> are exact in Python.
\<close>

definition max_num_jobs_cores_binary64 :: "nat \<Rightarrow> rat" where
  "max_num_jobs_cores_binary64 n = max 1 (binary64 (binary64 (of_nat n) * float_0_8))"

definition free_memory_gb_binary64 :: "nat \<Rightarrow> rat" where
  "free_memory_gb_binary64 a = binary64 (of_nat a / (1024 ^ 3))"

definition max_num_jobs_memory_binary64 :: "nat \<Rightarrow> int" where
  "max_num_jobs_memory_binary64 a = int_of_float (binary64 (free_memory_gb_binary64 a / 9))"

definition max_jobs_binary64 :: "nat \<Rightarrow> nat \<Rightarrow> int" where
  "max_jobs_binary64 n a =
     int_of_float (max 1 (min (max_num_jobs_cores_binary64 n)
                              (of_int (max_num_jobs_memory_binary64 a))))"

definition NinjaBuildExtension_init_binary64 :: "host \<Rightarrow> environ \<Rightarrow> error + environ" where
  "NinjaBuildExtension_init_binary64 h env =
     (case cpu_count h of
        None \<Rightarrow> Inl TypeError
      | Some n \<Rightarrow>
          (case requested_jobs env of
             Inl e \<Rightarrow> Inl e
           | Inr req \<Rightarrow>
               if of_int req < max_num_jobs_cores_binary64 n
               then Inr (env(''MAX_JOBS'' \<mapsto> str (max_jobs_binary64 n (available h))))
               else Inr env))"

definition final_max_jobs :: "host \<Rightarrow> environ \<Rightarrow> error + int" where
  \<comment> \<open>the job limit in force after the constructor: \<open>MAX_JOBS\<close> read back the way the
      constructor itself reads it\<close>
  "final_max_jobs h env =
     (case NinjaBuildExtension_init h env of Inl e \<Rightarrow> Inl e | Inr env' \<Rightarrow> requested_jobs env')"

definition cpuCeiling :: "nat \<Rightarrow> int" where
  \<comment> \<open>the specification's CPU ceiling, \<open>max(1, floor(availableCpuCount * 0.8))\<close>; the code
      has no such value, it keeps the product unrounded in \<open>max_num_jobs_cores\<close>\<close>
  "cpuCeiling n = max 1 \<lfloor>(of_nat n :: rat) * (8 / 10)\<rfloor>"

section \<open>The build target and the extension modules\<close>

text \<open>
  Lines 27--39 and 61--186 run when the script is loaded. What they ask of \<open>torch\<close>,
  of \<open>packaging\<close> and of the file system is a field of \<open>torch_host\<close>: whether torch is a
  HIP build, \<open>torch.__version__\<close>, \<open>torch.version.hip\<close> (which is \<open>None\<close> on a torch
  that is not a HIP build), the directory of the script, which paths exist, which strings
  \<open>packaging.version.parse\<close> accepts and how it orders two of them, and whether torch has
  \<open>float8_e4m3fnuz\<close>. A parsed version is kept as the string it was parsed from.

  Not modelled: the creation of the build directories (lines 65--68) and the calls into
  \<open>aiter.jit.core\<close> (lines 126--139 and 142), which do not touch \<open>ext_modules\<close> and are
  taken to return, and the messages of the two assertions.
\<close>

record torch_host =
  IS_HIP_EXTENSION :: bool
  torch_version :: string
  torch_version_hip :: "string option"
  this_dir :: string
  path_exists :: "string \<Rightarrow> bool"
  valid_version :: "string \<Rightarrow> bool"
  version_gt :: "string \<Rightarrow> string \<Rightarrow> bool"
  version_lt :: "string \<Rightarrow> string \<Rightarrow> bool"
  has_float8_e4m3fnuz :: bool

record extension =
  name :: string
  sources :: "string list"
  include_dirs :: "string list"
  libraries :: "string list"
  cxx :: "string list"
  nvcc :: "string list"

definition BUILD_TARGET :: "environ \<Rightarrow> string" where
  "BUILD_TARGET env = environ_get env ''BUILD_TARGET'' ''auto''"

definition IS_ROCM :: "torch_host \<Rightarrow> environ \<Rightarrow> bool option" where
  \<comment> \<open>lines 29--38; \<open>None\<close> when no branch binds the name\<close>
  "IS_ROCM t env =
     (if BUILD_TARGET env = ''auto'' then
        (if IS_HIP_EXTENSION t then Some True else Some False)
      else
        (if BUILD_TARGET env = ''cuda'' then Some False
         else if BUILD_TARGET env = ''rocm'' then Some True
         else None))"

definition allowed_archs :: "string list" where
  "allowed_archs = [''native'', ''gfx90a'', ''gfx940'', ''gfx941'', ''gfx942'', ''gfx1100'']"

definition validate_and_update_archs :: "string list \<Rightarrow> error + unit" where
  "validate_and_update_archs archs =
     (if list_all (\<lambda>arch. List.member allowed_archs arch) archs then Inr ()
      else Inl AssertionError)"

fun split :: "char \<Rightarrow> string \<Rightarrow> string list" where
  \<comment> \<open>\<open>s.split(sep)\<close> for a separator of one character\<close>
  "split sep [] = [[]]"
| "split sep (c # cs) =
     (if c = sep then [] # split sep cs
      else (case split sep cs of [] \<Rightarrow> [[c]] | w # ws \<Rightarrow> (c # w) # ws))"

definition is_str_space :: "char \<Rightarrow> bool" where
  \<comment> \<open>the ASCII characters \<open>str.split()\<close> separates at: space, \<open>\t \n \v \f \r\<close> and the
      four separators \<open>\x1c\<close> to \<open>\x1f\<close>\<close>
  "is_str_space c =
     (c = CHR '' '' \<or> (9 \<le> (of_char c :: nat) \<and> (of_char c :: nat) \<le> 13)
      \<or> (28 \<le> (of_char c :: nat) \<and> (of_char c :: nat) \<le> 31))"

fun fields :: "string \<Rightarrow> string list" where
  \<comment> \<open>the pieces between white-space characters, empty ones included\<close>
  "fields [] = [[]]"
| "fields (c # cs) =
     (if is_str_space c then [] # fields cs
      else (case fields cs of [] \<Rightarrow> [[c]] | w # ws \<Rightarrow> (c # w) # ws))"

definition split_whitespace :: "string \<Rightarrow> string list" where
  \<comment> \<open>\<open>s.split()\<close>: the words between runs of white space\<close>
  "split_whitespace s = filter (\<lambda>w. w \<noteq> []) (fields s)"

definition rstrip :: "char \<Rightarrow> string \<Rightarrow> string" where
  \<comment> \<open>\<open>s.rstrip(c)\<close> for one character\<close>
  "rstrip c s = rev (dropWhile (\<lambda>d. d = c) (rev s))"

definition replace :: "char \<Rightarrow> char \<Rightarrow> string \<Rightarrow> string" where
  \<comment> \<open>\<open>s.replace(a, b)\<close> for two characters\<close>
  "replace a b s = map (\<lambda>d. if d = a then b else d) s"

definition get_hip_version :: "torch_host \<Rightarrow> error + string" where
  \<comment> \<open>line 44: \<open>parse(torch.version.hip.split()[-1].rstrip('-').replace('-', '+'))\<close>\<close>
  "get_hip_version t =
     (case torch_version_hip t of
        None \<Rightarrow> Inl AttributeError
      | Some v \<Rightarrow>
          (case split_whitespace v of
             [] \<Rightarrow> Inl IndexError
           | w # ws \<Rightarrow>
               (let s = replace CHR ''-'' CHR ''+'' (rstrip CHR ''-'' (last (w # ws)))
                in if valid_version t s then Inr s else Inl InvalidVersion)))"

definition TORCH_MAJOR_MINOR :: "torch_host \<Rightarrow> error + int \<times> int" where
  \<comment> \<open>lines 71--72: \<open>int(torch.__version__.split(".")[0])\<close> and the same of \<open>[1]\<close>\<close>
  "TORCH_MAJOR_MINOR t =
     (case split CHR ''.'' (torch_version t) of
        [] \<Rightarrow> Inl IndexError
      | a # rest \<Rightarrow>
          (case int_of_str a of
             Inl e \<Rightarrow> Inl e
           | Inr major \<Rightarrow>
               (case rest of
                  [] \<Rightarrow> Inl IndexError
                | b # _ \<Rightarrow>
                    (case int_of_str b of
                       Inl e \<Rightarrow> Inl e
                     | Inr minor \<Rightarrow> Inr (major, minor)))))"

definition cc_flag :: "torch_host \<Rightarrow> string \<Rightarrow> string list \<Rightarrow> string list" where
  \<comment> \<open>lines 88--113, for the HIP version \<open>hv\<close>\<close>
  "cc_flag t hv archs =
     map (\<lambda>arch. ''--offload-arch='' @ arch) archs @
     [''-mllvm'', ''-enable-post-misched=0'',
      ''-mllvm'', ''-amdgpu-early-inline-all=true'',
      ''-mllvm'', ''-amdgpu-function-calls=false'',
      ''-mllvm'', ''--amdgpu-kernarg-preload-count=16'',
      ''-mllvm'', ''-amdgpu-coerce-illegal-types=1'',
      ''-Wno-unused-result'',
      ''-Wno-switch-bool'',
      ''-Wno-vla-cxx-extension'',
      ''-Wno-undefined-func-template'',
      ''-fgpu-flush-denormals-to-zero''] @
     (if version_gt t hv ''5.7.23302'' then [''-fno-offload-uniform-block''] else []) @
     (if version_gt t hv ''6.1.40090'' then [''-mllvm'', ''-enable-post-misched=0''] else []) @
     (if version_gt t hv ''6.2.41132''
      then [''-mllvm'', ''-amdgpu-early-inline-all=true'',
            ''-mllvm'', ''-amdgpu-function-calls=false'']
      else []) @
     (if version_gt t hv ''6.2.41133'' \<and> version_lt t hv ''6.3.00000''
      then [''-mllvm'', ''-amdgpu-coerce-illegal-types=1'']
      else [])"

definition rocsolidxgemm :: "torch_host \<Rightarrow> string list \<Rightarrow> extension" where
  \<comment> \<open>lines 145--163\<close>
  "rocsolidxgemm t flags =
     \<lparr>name = ''rocsolidxgemm_'',
      sources = [this_dir t @ ''/build'' @ ''/rocsolgemm.cu''],
      include_dirs = [],
      libraries = [''rocblas''],
      cxx = [''-O3'', ''-DLEGACY_HIPBLAS_DIRECT=ON''],
      nvcc = [''-O3'', ''-U__CUDA_NO_HALF_OPERATORS__'', ''-U__CUDA_NO_HALF_CONVERSIONS__'',
              ''-ftemplate-depth=1024'', ''-DLEGACY_HIPBLAS_DIRECT=ON''] @ flags\<rparr>"

definition hipbsolidxgemm :: "torch_host \<Rightarrow> string list \<Rightarrow> extension" where
  \<comment> \<open>lines 165--183; the conditional expression of line 182 spans the whole sum, so
      without \<open>float8_e4m3fnuz\<close> the \<open>nvcc\<close> flags are the empty list\<close>
  "hipbsolidxgemm t flags =
     \<lparr>name = ''hipbsolidxgemm_'',
      sources = [this_dir t @ ''/build'' @ ''/hipbsolgemm.cu''],
      include_dirs = [],
      libraries = [''hipblaslt''],
      cxx = [''-O3'', ''-DLEGACY_HIPBLAS_DIRECT=ON''],
      nvcc = (if has_float8_e4m3fnuz t
              then [''-O3'', ''-U__CUDA_NO_HALF_OPERATORS__'', ''-U__CUDA_NO_HALF_CONVERSIONS__'',
                    ''-ftemplate-depth=1024'', ''-DLEGACY_HIPBLAS_DIRECT=ON''] @ flags @
                   [''-DENABLE_TORCH_FP8'']
              else [])\<rparr>"

definition prebuild_kernels :: "environ \<Rightarrow> error + bool" where
  \<comment> \<open>\<open>int(os.environ.get("PREBUILD_KERNELS", 0)) == 1\<close>\<close>
  "prebuild_kernels env =
     (case env ''PREBUILD_KERNELS'' of
        None \<Rightarrow> Inr False
      | Some v \<Rightarrow> (case int_of_str v of Inl e \<Rightarrow> Inl e | Inr i \<Rightarrow> Inr (i = 1)))"

definition ext_modules :: "torch_host \<Rightarrow> environ \<Rightarrow> error option \<times> extension list" where
  \<comment> \<open>lines 61--186: the exception that ends the script there, if any, and the list
      \<open>ext_modules\<close> as it is then\<close>
  "ext_modules t env =
     (case IS_ROCM t env of
        None \<Rightarrow> (Some (NameError ''IS_ROCM''), [])
      | Some True \<Rightarrow>
          (case TORCH_MAJOR_MINOR t of
             Inl e \<Rightarrow> (Some e, [])
           | Inr _ \<Rightarrow>
               (let ck_dir =
                      environ_get env ''CK_DIR'' (this_dir t @ ''/3rdparty/composable_kernel'')
                in
                if \<not> path_exists t ck_dir then (Some AssertionError, [])
                else
                  (let archs = split CHR '';'' (environ_get env ''GPU_ARCHS'' ''native'') in
                   case validate_and_update_archs archs of
                     Inl e \<Rightarrow> (Some e, [])
                   | Inr _ \<Rightarrow>
                       (case get_hip_version t of
                          Inl e \<Rightarrow> (Some e, [])
                        | Inr hv \<Rightarrow>
                            (case prebuild_kernels env of
                               Inl e \<Rightarrow> (Some e, [])
                             | Inr _ \<Rightarrow>
                                 (None, [] @ [rocsolidxgemm t (cc_flag t hv archs)]
                                           @ [hipbsolidxgemm t (cc_flag t hv archs)]))))))
      | Some False \<Rightarrow> (Some (NotImplementedError ''Only ROCM is supported''), []))"

section \<open>Facts about the conversions\<close>

text \<open>\<open>int(str(i)) == i\<close>: what the constructor writes to \<open>MAX_JOBS\<close> reads back as written.\<close>

lemma of_char_digit_char: "d < 10 \<Longrightarrow> (of_char (digit_char d) :: nat) = 48 + d"
  by (simp add: digit_char_def)

lemma is_digit_digit_char: "d < 10 \<Longrightarrow> is_digit (digit_char d)"
  by (simp add: is_digit_def of_char_digit_char)

lemma digit_val_digit_char: "d < 10 \<Longrightarrow> digit_val (digit_char d) = d"
  by (simp add: digit_val_def of_char_digit_char)

lemma is_digit_not_space: "is_digit c \<Longrightarrow> \<not> is_space c"
  by (auto simp: is_digit_def is_space_def)

lemma is_digit_not_sign: "is_digit c \<Longrightarrow> c \<noteq> CHR ''-'' \<and> c \<noteq> CHR ''+'' \<and> c \<noteq> CHR ''_''"
  by (auto simp: is_digit_def)

lemma str_nat_digits: "\<forall>c \<in> set (str_nat n). is_digit c"
proof (induction n rule: str_nat.induct)
  case (1 n)
  show ?case
  proof (cases "n < 10")
    case True
    then show ?thesis by (subst str_nat.simps) (simp add: is_digit_digit_char)
  next
    case False
    with 1 show ?thesis by (subst str_nat.simps) (simp add: is_digit_digit_char)
  qed
qed

lemma str_nat_nonempty: "str_nat n \<noteq> []"
  by (subst str_nat.simps) simp

lemma parse_digits_append:
  "\<forall>c \<in> set xs. is_digit c \<Longrightarrow>
   parse_digits acc (xs @ ys) = (case parse_digits acc xs of None \<Rightarrow> None | Some v \<Rightarrow> parse_digits v ys)"
  by (induction xs arbitrary: acc) simp_all

lemma parse_digits_str_nat: "parse_digits 0 (str_nat n) = Some n"
proof (induction n rule: str_nat.induct)
  case (1 n)
  show ?case
  proof (cases "n < 10")
    case True
    then show ?thesis
      by (subst str_nat.simps) (simp add: is_digit_digit_char digit_val_digit_char)
  next
    case False
    with 1 have ih: "parse_digits 0 (str_nat (n div 10)) = Some (n div 10)" by simp
    have d: "n mod 10 < 10" by simp
    show ?thesis
      using False
      by (subst str_nat.simps)
         (simp add: parse_digits_append str_nat_digits ih is_digit_digit_char
            digit_val_digit_char d)
  qed
qed

lemma parse_nat_str_nat: "parse_nat (str_nat n) = Some n"
proof -
  obtain c cs where e: "str_nat n = c # cs"
    using str_nat_nonempty [of n] by (cases "str_nat n") auto
  have "is_digit c" using str_nat_digits [of n] e by simp
  then show ?thesis
    using parse_digits_str_nat [of n] e by (simp add: parse_nat_def)
qed

lemma strip_digits:
  assumes "s \<noteq> []" "\<forall>c \<in> set s. is_digit c"
  shows "strip s = s"
proof -
  have h: "\<not> is_space (hd s)" using assms by (simp add: is_digit_not_space)
  have l: "\<not> is_space (last s)" using assms by (simp add: is_digit_not_space)
  have 1: "dropWhile is_space s = s" using assms(1) h by (cases s) auto
  have 2: "dropWhile is_space (rev s) = rev s"
    using assms(1) l by (cases "rev s") (auto simp: last_rev hd_rev)
  show ?thesis by (simp add: strip_def 1 2)
qed

lemma strip_signed:
  assumes "s \<noteq> []" "\<forall>c \<in> set s. is_digit c"
  shows "strip (CHR ''-'' # s) = CHR ''-'' # s"
proof -
  have l: "\<not> is_space (last s)" using assms by (simp add: is_digit_not_space)
  have 1: "dropWhile is_space (CHR ''-'' # s) = CHR ''-'' # s" by (simp add: is_space_def)
  have 2: "dropWhile is_space (rev s @ [CHR ''-'']) = rev s @ [CHR ''-'']"
    using assms(1) l by (cases "rev s") (auto simp: last_rev hd_rev)
  have "strip (CHR ''-'' # s) = rev (dropWhile is_space (rev (CHR ''-'' # s)))"
    unfolding strip_def 1 ..
  also have "\<dots> = rev (rev s @ [CHR ''-''])" using 2 by simp
  finally show ?thesis by simp
qed

lemma floor_rat_numeral_div: "\<lfloor>(numeral a :: rat) / numeral b\<rfloor> = numeral a div numeral b"
  using floor_divide_of_int_eq [of "numeral a" "numeral b", where ?'a = rat] by simp

lemma int_of_str_str: "int_of_str (str i) = Inr i"
proof (cases "i < 0")
  case True
  let ?s = "str_nat (nat (- i))"
  have "strip (CHR ''-'' # ?s) = CHR ''-'' # ?s"
    by (rule strip_signed) (simp_all add: str_nat_nonempty str_nat_digits)
  then show ?thesis
    using True by (simp add: int_of_str_def str_def parse_nat_str_nat)
next
  case False
  let ?s = "str_nat (nat i)"
  have s: "strip ?s = ?s"
    by (rule strip_digits) (simp_all add: str_nat_nonempty str_nat_digits)
  obtain c cs where e: "?s = c # cs"
    using str_nat_nonempty [of "nat i"] by (cases ?s) auto
  have "is_digit c" using str_nat_digits [of "nat i"] e by simp
  then have "c \<noteq> CHR ''-''" "c \<noteq> CHR ''+''" by (simp_all add: is_digit_not_sign)
  then show ?thesis
    using False s e parse_nat_str_nat [of "nat i"]
    by (simp add: int_of_str_def str_def)
qed

section \<open>Facts about the throttling\<close>

lemma requested_jobs_upd: "requested_jobs (env(''MAX_JOBS'' \<mapsto> str j)) = Inr j"
  by (simp add: requested_jobs_def environ_get_def int_of_str_str)

lemma requested_jobs_unset: "env ''MAX_JOBS'' = None \<Longrightarrow> requested_jobs env = Inr 1"
proof -
  have "int_of_str ''1'' = Inr 1" by code_simp
  then show "env ''MAX_JOBS'' = None \<Longrightarrow> requested_jobs env = Inr 1"
    by (simp add: requested_jobs_def environ_get_def)
qed

lemma final_max_jobs_eq:
  assumes "cpu_count h = Some n" "requested_jobs env = Inr r"
  shows "final_max_jobs h env =
         Inr (if of_int r < max_num_jobs_cores n then max_jobs n (available h) else r)"
  using assms
  by (simp add: final_max_jobs_def NinjaBuildExtension_init_def requested_jobs_upd)

lemma NinjaBuildExtension_init_eq:
  assumes "cpu_count h = Some n" "requested_jobs env = Inr r"
  shows "NinjaBuildExtension_init h env =
         Inr (if of_int r < max_num_jobs_cores n
              then env(''MAX_JOBS'' \<mapsto> str (max_jobs n (available h))) else env)"
  using assms by (simp add: NinjaBuildExtension_init_def)

lemma max_num_jobs_cores_ge_1: "1 \<le> max_num_jobs_cores n"
  by (simp add: max_num_jobs_cores_def)

lemma floor_max_1: "\<lfloor>max (1::rat) x\<rfloor> = max 1 \<lfloor>x\<rfloor>"
  by (simp add: max_def le_floor_iff)

lemma floor_max_num_jobs_cores: "\<lfloor>max_num_jobs_cores n\<rfloor> = cpuCeiling n"
  by (simp add: max_num_jobs_cores_def cpuCeiling_def floor_max_1)

lemma max_num_jobs_memory_eq: "max_num_jobs_memory a = int (a div (9 * 1024 ^ 3))"
proof -
  have "free_memory_gb a / 9 = rat_of_int (int a) / rat_of_int (int (9 * 1024 ^ 3))"
    by (simp add: free_memory_gb_def)
  then have "\<lfloor>free_memory_gb a / 9\<rfloor> = int a div int (9 * 1024 ^ 3)"
    by (simp only: floor_divide_of_int_eq)
  moreover have "0 \<le> free_memory_gb a / 9" by (simp add: free_memory_gb_def)
  ultimately show ?thesis
    by (simp add: max_num_jobs_memory_def int_of_float_def zdiv_int)
qed

text \<open>
  The value the constructor computes is the specification's
  \<open>max(1, min(cpuCeiling, memoryCeiling))\<close>: rounding the minimum down at the end gives
  what rounding the CPU product down first would.
\<close>

lemma max_jobs_eq: "max_jobs n a = max 1 (min (cpuCeiling n) (max_num_jobs_memory a))"
proof -
  let ?c = "max_num_jobs_cores n" and ?m = "max_num_jobs_memory a"
  have "\<lfloor>min ?c (rat_of_int ?m)\<rfloor> = min \<lfloor>?c\<rfloor> ?m"
    by (simp add: min_def le_floor_iff floor_less_iff) linarith
  moreover have "0 \<le> max 1 (min ?c (rat_of_int ?m))" by simp
  ultimately show ?thesis
    by (simp add: max_jobs_def int_of_float_def floor_max_num_jobs_cores floor_max_1)
qed

lemma max_jobs_ge_1: "1 \<le> max_jobs n a"
  by (simp add: max_jobs_eq)

lemma cpuCeiling_ge_1: "1 \<le> cpuCeiling n"
  by (simp add: cpuCeiling_def)

lemma max_jobs_le_cpuCeiling: "max_jobs n a \<le> cpuCeiling n"
  using cpuCeiling_ge_1 [of n] by (simp add: max_jobs_eq)

lemma max_jobs_mono: "a \<le> b \<Longrightarrow> max_jobs n a \<le> max_jobs n b"
  by (auto simp: max_jobs_eq max_num_jobs_memory_eq div_le_mono
        intro: max.coboundedI2 min.coboundedI2)

lemma below_cpuCeiling: "r < cpuCeiling n \<Longrightarrow> rat_of_int r < max_num_jobs_cores n"
  unfolding floor_max_num_jobs_cores [symmetric] by (simp add: less_floor_iff)

lemma max_jobs_no_memory: "max_jobs n 0 = 1"
  by (simp add: max_jobs_eq max_num_jobs_memory_eq)

section \<open>Binary64 rounding and exact arithmetic agree\<close>

lemma round_half_even_of_int: "round_half_even (of_int k) = k"
  by (simp add: round_half_even_def)

lemma round_half_even_lower: "\<lfloor>x\<rfloor> \<le> round_half_even x"
  by (simp add: round_half_even_def Let_def)

lemma round_half_even_upper: "round_half_even x \<le> \<lfloor>x\<rfloor> + 1"
  by (simp add: round_half_even_def Let_def)

lemma round_half_even_mono:
  assumes "x \<le> y"
  shows "round_half_even x \<le> round_half_even y"
proof (cases "\<lfloor>x\<rfloor> = \<lfloor>y\<rfloor>")
  case True
  then have "x - of_int \<lfloor>x\<rfloor> \<le> y - of_int \<lfloor>y\<rfloor>" using assms by simp
  then show ?thesis
    using True by (auto simp: round_half_even_def Let_def)
next
  case False
  then have "\<lfloor>x\<rfloor> < \<lfloor>y\<rfloor>" using floor_mono [OF assms] by simp
  then show ?thesis
    using round_half_even_upper [of x] round_half_even_lower [of y] by linarith
qed

lemma round_half_even_below_half:
  assumes "of_int k \<le> x" "x < of_int k + 1 / 2"
  shows "round_half_even x = k"
proof -
  have "\<lfloor>x\<rfloor> = k" using assms by (simp add: floor_eq_iff)
  then show ?thesis using assms by (simp add: round_half_even_def)
qed

lemma exponent_bounds:
  assumes "0 < x"
  shows "2 powi exponent x \<le> x \<and> x < 2 powi (exponent x + 1)"
proof -
  obtain p q where pq: "quotient_of x = (p, q)" by (cases "quotient_of x")
  then have q: "0 < q" and x: "x = of_int p / of_int q"
    by (simp_all add: quotient_of_denom_pos quotient_of_div)
  have p: "0 < p" using assms q x by (simp add: zero_less_divide_iff)
  let ?bp = "bitlen p" and ?bq = "bitlen q"
  have bp1: "1 \<le> ?bp" and bq1: "1 \<le> ?bq"
    using p q by (simp_all add: bitlen_alt_def)
  have "(2::int) ^ nat (?bp - 1) \<le> p" "p < 2 ^ nat ?bp"
    using bitlen_bounds [OF p] by simp_all
  then have "rat_of_int (2 ^ nat (?bp - 1)) \<le> of_int p" "rat_of_int p < of_int (2 ^ nat ?bp)"
    by (simp_all only: of_int_le_iff of_int_less_iff)
  then have P: "2 powi (?bp - 1) \<le> rat_of_int p" "rat_of_int p < 2 powi ?bp"
    using bp1 by (simp_all add: power_int_def)
  have "(2::int) ^ nat (?bq - 1) \<le> q" "q < 2 ^ nat ?bq"
    using bitlen_bounds [OF q] by simp_all
  then have "rat_of_int (2 ^ nat (?bq - 1)) \<le> of_int q" "rat_of_int q < of_int (2 ^ nat ?bq)"
    by (simp_all only: of_int_le_iff of_int_less_iff)
  then have Q: "2 powi (?bq - 1) \<le> rat_of_int q" "rat_of_int q < 2 powi ?bq"
    using bq1 by (simp_all add: power_int_def)
  have q': "0 < rat_of_int q" using q by simp
  have lo: "2 powi (?bp - ?bq - 1) < x"
  proof -
    have "2 powi (?bp - ?bq - 1) * rat_of_int q < 2 powi (?bp - ?bq - 1) * 2 powi ?bq"
      using Q(2) by simp
    also have "\<dots> = 2 powi (?bp - 1)" by (simp flip: power_int_add)
    also have "\<dots> \<le> of_int p" by (rule P(1))
    finally show ?thesis using q' by (simp add: x pos_less_divide_eq)
  qed
  have hi: "x < 2 powi (?bp - ?bq + 1)"
  proof -
    have "rat_of_int p < 2 powi ?bp" by (rule P(2))
    also have "\<dots> = 2 powi (?bp - ?bq + 1) * 2 powi (?bq - 1)" by (simp flip: power_int_add)
    also have "\<dots> \<le> 2 powi (?bp - ?bq + 1) * rat_of_int q"
      using Q(1) by simp
    finally show ?thesis using q' by (simp add: x pos_divide_less_eq)
  qed
  show ?thesis
  proof (cases "2 powi (?bp - ?bq) \<le> x")
    case True
    then have "exponent x = ?bp - ?bq" by (simp add: exponent_def pq)
    then show ?thesis using True hi by simp
  next
    case False
    then have "exponent x = ?bp - ?bq - 1" by (simp add: exponent_def pq)
    then show ?thesis using False lo by simp
  qed
qed

lemma pow2_add: "(2::rat) powi a * 2 powi b = 2 powi (a + b)"
  by (simp add: power_int_add)

lemma powi_less_D: "(2::rat) powi a < 2 powi b \<Longrightarrow> a < b"
  by (metis not_le power_int_increasing one_le_numeral)

lemma exponent_unique:
  assumes "2 powi e \<le> x" "x < 2 powi (e + 1)"
  shows "exponent x = e"
proof -
  have "0 < (2::rat) powi e" by simp
  then have x: "0 < x" using assms(1) by linarith
  note b = exponent_bounds [OF x]
  have "(2::rat) powi e < 2 powi (exponent x + 1)" using assms(1) b by linarith
  then have 1: "e < exponent x + 1"
    by (metis not_le power_int_increasing one_le_numeral)
  have "(2::rat) powi exponent x < 2 powi (e + 1)" using assms(2) b by linarith
  then have 2: "exponent x < e + 1"
    by (metis not_le power_int_increasing one_le_numeral)
  from 1 2 show ?thesis by simp
qed

lemma round_pos_eq:
  assumes "2 powi e \<le> x" "x < 2 powi (e + 1)"
  shows "round_pos x = of_int (round_half_even (x * 2 powi (52 - e))) * 2 powi (e - 52)"
proof -
  have "x / 2 powi (e - 52) = x * 2 powi (52 - e)"
    by (simp add: power_int_diff field_simps)
  then show ?thesis
    using exponent_unique [OF assms] by (simp add: round_pos_def)
qed

lemma round_pos_bounds:
  assumes "2 powi e \<le> x" "x < 2 powi (e + 1)"
  shows "2 powi e \<le> round_pos x \<and> round_pos x \<le> 2 powi (e + 1)"
proof -
  let ?m = "x * 2 powi (52 - e)"
  have u: "0 < (2::rat) powi (e - 52)" by simp
  have "2 powi e * 2 powi (52 - e) \<le> ?m" using assms(1) by simp
  then have "rat_of_int (2 ^ 52) \<le> ?m" by (simp flip: power_int_add)
  from round_half_even_mono [OF this]
  have lo: "2 ^ 52 \<le> round_half_even ?m" by (simp only: round_half_even_of_int)
  have "?m \<le> 2 powi (e + 1) * 2 powi (52 - e)" using assms(2) by simp
  then have "?m \<le> rat_of_int (2 ^ 53)" by (simp flip: power_int_add)
  from round_half_even_mono [OF this]
  have hi: "round_half_even ?m \<le> 2 ^ 53" by (simp only: round_half_even_of_int)
  have "2 powi e = rat_of_int (2 ^ 52) * 2 powi (e - 52)"
    using power_int_add [of "2::rat" 52 "e - 52"] by simp
  also have "\<dots> \<le> of_int (round_half_even ?m) * 2 powi (e - 52)"
    using lo u by (simp only: mult_le_cancel_right_pos of_int_le_iff)
  finally have 1: "2 powi e \<le> round_pos x" by (simp only: round_pos_eq [OF assms])
  have "of_int (round_half_even ?m) * 2 powi (e - 52) \<le> rat_of_int (2 ^ 53) * 2 powi (e - 52)"
    using hi u by (simp only: mult_le_cancel_right_pos of_int_le_iff)
  also have "\<dots> = 2 powi (e + 1)"
    using power_int_add [of "2::rat" 53 "e - 52"] by (simp add: add.commute)
  finally have 2: "round_pos x \<le> 2 powi (e + 1)" by (simp only: round_pos_eq [OF assms])
  from 1 2 show ?thesis ..
qed

lemma round_pos_mono:
  assumes "0 < x" "x \<le> y"
  shows "round_pos x \<le> round_pos y"
proof -
  have y: "0 < y" using assms by linarith
  let ?e = "exponent x" and ?f = "exponent y"
  note bx = exponent_bounds [OF assms(1)] and b2 = exponent_bounds [OF y]
  have "(2::rat) powi ?e < 2 powi (?f + 1)" using bx b2 assms(2) by linarith
  then have "?e < ?f + 1" by (metis not_le power_int_increasing one_le_numeral)
  then consider "?e = ?f" | "?e + 1 \<le> ?f" by linarith
  then show ?thesis
  proof cases
    case 1
    have "x / 2 powi (?f - 52) \<le> y / 2 powi (?f - 52)"
      using assms(2) by (simp add: divide_right_mono)
    from round_half_even_mono [OF this] show ?thesis
      by (simp add: round_pos_def 1 Let_def)
  next
    case 2
    have "round_pos x \<le> 2 powi (?e + 1)"
      using round_pos_bounds [of ?e x] bx by simp
    also have "\<dots> \<le> 2 powi ?f" using 2 by (simp add: power_int_increasing)
    also have "\<dots> \<le> round_pos y"
      using round_pos_bounds [of ?f y] b2 by simp
    finally show ?thesis .
  qed
qed

lemma binary64_mono:
  assumes "0 \<le> x" "x \<le> y"
  shows "binary64 x \<le> binary64 y"
proof (cases "x = 0")
  case True
  show ?thesis
  proof (cases "y = 0")
    case True
    with \<open>x = 0\<close> show ?thesis by simp
  next
    case False
    then have y: "0 < y" using assms by linarith
    have "0 < round_pos y"
      using round_pos_bounds [of "exponent y" y] exponent_bounds [OF y]
        zero_less_power_int [of "2::rat" "exponent y"]
      by linarith
    then show ?thesis using True y by (simp add: binary64_def)
  qed
next
  case False
  then have "0 < x" "0 < y" using assms by linarith+
  then show ?thesis using round_pos_mono [OF \<open>0 < x\<close> assms(2)] by (simp add: binary64_def)
qed

text \<open>A number with at most 53 significant bits is a binary64 value.\<close>

lemma binary64_exact:
  assumes "0 \<le> k" "k < 2 ^ 53"
  shows "binary64 (of_int k * 2 powi j) = of_int k * 2 powi j"
proof (cases "k = 0")
  case True
  then show ?thesis by (simp add: binary64_def)
next
  case False
  then have k: "0 < k" using assms(1) by simp
  let ?x = "rat_of_int k * 2 powi j"
  have x: "0 < ?x" using k by simp
  let ?e = "exponent ?x"
  note b = exponent_bounds [OF x]
  have "2 powi ?e \<le> rat_of_int k * 2 powi j" using b by simp
  also have "\<dots> < rat_of_int (2 ^ 53) * 2 powi j"
    using assms(2) by (simp only: mult_less_cancel_right_pos of_int_less_iff zero_less_power_int zero_less_numeral)
  also have "\<dots> = 2 powi (53 + j)" by (simp add: power_int_add)
  finally have "?e < 53 + j" by (metis not_le power_int_increasing one_le_numeral)
  then have n: "0 \<le> j + 52 - ?e" by simp
  have "?x / 2 powi (?e - 52) = rat_of_int k * 2 powi (j + 52 - ?e)"
    by (simp add: power_int_diff power_int_add field_simps)
  also have "\<dots> = rat_of_int (k * 2 ^ nat (j + 52 - ?e))"
    using n by (simp add: power_int_def)
  finally have "round_half_even (?x / 2 powi (?e - 52)) = k * 2 ^ nat (j + 52 - ?e)"
    by (simp only: round_half_even_of_int)
  then have "round_pos ?x = rat_of_int (k * 2 ^ nat (j + 52 - ?e)) * 2 powi (?e - 52)"
    by (simp add: round_pos_def)
  also have "\<dots> = rat_of_int k * 2 powi (j + 52 - ?e) * 2 powi (?e - 52)"
    using n by (simp add: power_int_def)
  also have "\<dots> = ?x"
    by (simp add: power_int_diff power_int_add field_simps)
  finally show ?thesis using x by (simp add: binary64_def)
qed

lemma binary64_of_int:
  assumes "0 \<le> k" "k < 2 ^ 53"
  shows "binary64 (of_int k) = of_int k"
  using binary64_exact [OF assms, of 0] by simp

lemma float_0_8_literal: "binary64 (8 / 10) = float_0_8"
  by code_simp

text \<open>
  Two values Python prints: \<open>3 * 0.8\<close> is \<open>2.4000000000000004\<close> (a tie, rounded to the
  even neighbour) and \<open>16 * 0.8\<close> is \<open>12.8\<close>, the binary64 value next to 12.8.
\<close>

lemma binary64_3_times_0_8: "binary64 (3 * float_0_8) = 1351079888211149 / 2 ^ 49"
  by code_simp

lemma binary64_16_times_0_8: "binary64 (16 * float_0_8) = binary64 (128 / 10)"
  by code_simp

lemma float_0_8_eq: "float_0_8 = 8 / 10 * (1 + 1 / 2 ^ 54)"
  by (simp add: float_0_8_def)

lemma binary64_of_nat: "n < 2 ^ 53 \<Longrightarrow> binary64 (of_nat n) = of_nat n"
  using binary64_of_int [of "int n"] by simp

text \<open>The product \<open>n * 0.8\<close> when 5 divides \<open>n\<close>: the rounding undoes the error of \<open>0.8\<close>.\<close>

lemma binary64_near_integer:
  fixes k :: int
  assumes "0 < k" "k < 2 ^ 50" "0 \<le> d" "d \<le> of_int k / 2 ^ 54"
  shows "binary64 (of_int k + d) = of_int k"
proof -
  define e where "e = exponent (rat_of_int k)"
  define x where "x = rat_of_int k + d"
  have k: "0 < rat_of_int k" using assms(1) by simp
  have b: "2 powi e \<le> rat_of_int k" "rat_of_int k < 2 powi (e + 1)"
    using exponent_bounds [OF k] by (simp_all add: e_def)
  have "(2::rat) powi 0 \<le> rat_of_int k" using assms(1) by simp
  also note b(2)
  finally have "0 < e + 1" by (rule powi_less_D)
  then have e0: "0 \<le> e" by simp
  have "rat_of_int k < rat_of_int (2 ^ 50)" using assms(2) by (simp only: of_int_less_iff)
  then have k50: "rat_of_int k < 2 powi 50" by simp
  note b(1)
  also note k50
  finally have e49: "e < 50" by (rule powi_less_D)
  have "rat_of_int k / 2 ^ 54 < 1" using k50 by simp
  then have d1: "d < 1" using assms(4) by linarith
  have "rat_of_int k < rat_of_int (2 ^ nat (e + 1))"
    using b(2) e0 by (simp add: power_int_def)
  then have "k < 2 ^ nat (e + 1)" by (simp only: of_int_less_iff)
  then have "k + 1 \<le> 2 ^ nat (e + 1)" by simp
  then have "rat_of_int (k + 1) \<le> rat_of_int (2 ^ nat (e + 1))" by (simp only: of_int_le_iff)
  then have k1: "rat_of_int k + 1 \<le> 2 powi (e + 1)" using e0 by (simp add: power_int_def)
  have lo: "2 powi e \<le> x" using b(1) assms(3) by (simp add: x_def)
  have hi: "x < 2 powi (e + 1)" using k1 d1 by (simp add: x_def)
  define K where "K = k * 2 ^ nat (52 - e)"
  have K: "rat_of_int K = rat_of_int k * 2 powi (52 - e)"
    using e49 by (simp add: K_def power_int_def)
  have half: "d * 2 powi (52 - e) < 1 / 2"
  proof -
    have "d * 2 powi (52 - e) \<le> rat_of_int k / 2 ^ 54 * 2 powi (52 - e)"
      using assms(4) by (simp only: mult_le_cancel_right_pos zero_less_power_int zero_less_numeral)
    also have "\<dots> = rat_of_int k * (2 powi (- 54) * 2 powi (52 - e))"
      by (simp add: power_int_minus field_simps)
    also have "\<dots> = rat_of_int k * 2 powi (- 2 - e)"
      by (simp only: pow2_add) simp
    also have "\<dots> < 2 powi (e + 1) * 2 powi (- 2 - e)"
      using b(2) by (simp only: mult_less_cancel_right_pos zero_less_power_int zero_less_numeral)
    also have "\<dots> = 2 powi (- 1)"
      by (simp only: pow2_add) simp
    finally show ?thesis by (simp add: power_int_minus)
  qed
  have nn: "0 \<le> d * 2 powi (52 - e)" using assms(3) by simp
  have m: "x * 2 powi (52 - e) = rat_of_int K + d * 2 powi (52 - e)"
    by (simp only: K x_def distrib_right)
  have "round_half_even (x * 2 powi (52 - e)) = K"
  proof (rule round_half_even_below_half)
    show "rat_of_int K \<le> x * 2 powi (52 - e)"
      unfolding m using nn by linarith
    show "x * 2 powi (52 - e) < rat_of_int K + 1 / 2"
      unfolding m using half by linarith
  qed
  then have "round_pos x = rat_of_int K * 2 powi (e - 52)"
    by (simp only: round_pos_eq [OF lo hi])
  also have "\<dots> = rat_of_int k * (2 powi (52 - e) * 2 powi (e - 52))"
    by (simp only: K mult.assoc)
  also have "\<dots> = rat_of_int k"
    by (simp only: pow2_add) simp
  finally have "round_pos x = rat_of_int k" .
  moreover have "0 < x" using k assms(3) by (simp add: x_def)
  ultimately show ?thesis by (simp add: binary64_def x_def [symmetric])
qed

text \<open>The product \<open>n * 0.8\<close> when 5 divides \<open>n\<close>: the rounding undoes the error of \<open>0.8\<close>.\<close>

lemma binary64_product_multiple_of_5:
  assumes "t < 2 ^ 48"
  shows "binary64 (of_nat (5 * t) * float_0_8) = of_nat (4 * t)"
proof (cases "t = 0")
  case True
  then show ?thesis by (simp add: binary64_def)
next
  case False
  define k where "k = int (4 * t)"
  have x: "rat_of_nat (5 * t) * float_0_8 = rat_of_int k + rat_of_int k / 2 ^ 54"
    by (simp add: float_0_8_eq k_def field_simps)
  have "0 < k" "k < 2 ^ 50" using False assms by (simp_all add: k_def)
  moreover have "0 \<le> rat_of_int k / 2 ^ 54" using \<open>0 < k\<close> by simp
  ultimately have "binary64 (rat_of_int k + rat_of_int k / 2 ^ 54) = rat_of_int k"
    by (intro binary64_near_integer) simp_all
  then show ?thesis by (simp only: x) (simp add: k_def)
qed

text \<open>
  Otherwise the exact product lies at least a fifth away from the integers around it, and
  so does the rounded one: eighths are binary64 values.
\<close>

lemma binary64_eighths:
  fixes k :: int
  assumes "0 \<le> k" "k < 2 ^ 50" "0 \<le> j" "j < 8"
  shows "binary64 (of_int k + of_int j / 8) = of_int k + of_int j / 8"
proof -
  have e: "rat_of_int (8 * k + j) * 2 powi (- 3) = of_int k + of_int j / 8"
    by (simp add: power_int_minus field_simps)
  have "binary64 (rat_of_int (8 * k + j) * 2 powi (- 3)) =
        rat_of_int (8 * k + j) * 2 powi (- 3)"
    using assms by (intro binary64_exact) simp_all
  then show ?thesis by (simp only: e)
qed

lemma binary64_product_bounds:
  assumes "n < 2 ^ 50" "n mod 5 \<noteq> 0"
  defines "k \<equiv> \<lfloor>rat_of_nat n * (8 / 10)\<rfloor>"
  shows "of_int k + 1 / 8 \<le> binary64 (of_nat n * float_0_8)
       \<and> binary64 (of_nat n * float_0_8) \<le> of_int k + 7 / 8
       \<and> of_int k < rat_of_nat n * (8 / 10) \<and> rat_of_nat n * (8 / 10) < of_int k + 1"
proof -
  define y where "y = rat_of_nat n * (8 / 10)"
  define x where "x = rat_of_nat n * float_0_8"
  have y: "y = rat_of_int (4 * int n) / rat_of_int 5" by (simp add: y_def)
  have kd: "k = (4 * int n) div 5"
    unfolding k_def y_def [symmetric] y by (simp only: floor_divide_of_int_eq)
  define j where "j = (4 * int n) mod 5"
  have j: "1 \<le> j" "j \<le> 4" using assms(2) unfolding j_def by presburger+
  have "4 * int n = 5 * k + j" unfolding kd j_def by simp
  then have "rat_of_int (4 * int n) = rat_of_int (5 * k + j)" by simp
  then have yk: "y = of_int k + of_int j / 5" by (simp add: y field_simps)
  have "rat_of_int 1 \<le> of_int j" "rat_of_int j \<le> of_int 4"
    using j by (simp_all only: of_int_le_iff)
  then have jb: "1 / 5 \<le> rat_of_int j / 5" "rat_of_int j / 5 \<le> 4 / 5" by simp_all
  have "rat_of_nat n < rat_of_nat (2 ^ 50)" using assms(1) by (simp only: of_nat_less_iff)
  then have n50: "rat_of_nat n < 2 ^ 50" by simp
  have k0: "0 \<le> k" unfolding kd by simp
  have "rat_of_int k \<le> y" using yk jb by linarith
  also have "y < 2 ^ 50" using n50 by (simp add: y_def)
  finally have "rat_of_int k < rat_of_int (2 ^ 50)" by simp
  then have k50: "k < 2 ^ 50" by (simp only: of_int_less_iff)
  have xy: "x = y + y / 2 ^ 54" by (simp add: x_def y_def float_0_8_eq field_simps)
  have y0: "0 \<le> y" by (simp add: y_def)
  have "y / 2 ^ 54 < 1 / 16" using n50 by (simp add: y_def)
  then have xb: "of_int k + 1 / 8 \<le> x" "x \<le> of_int k + 7 / 8"
    using xy yk jb y0 by (simp_all add: field_simps)
  have "binary64 (of_int k + of_int 1 / 8) \<le> binary64 x"
    using xb(1) k0 by (intro binary64_mono) simp_all
  then have lo: "of_int k + 1 / 8 \<le> binary64 x"
    using binary64_eighths [OF k0 k50, of 1] by simp
  have "binary64 x \<le> binary64 (of_int k + of_int 7 / 8)"
    using xb(2) by (intro binary64_mono) (simp_all add: x_def float_0_8_def)
  then have hi: "binary64 x \<le> of_int k + 7 / 8"
    using binary64_eighths [OF k0 k50, of 7] by simp
  show ?thesis
    using lo hi yk jb unfolding x_def y_def by simp
qed

lemma binary64_product_floor:
  assumes "n < 2 ^ 50"
  shows "\<lfloor>binary64 (of_nat n * float_0_8)\<rfloor> = \<lfloor>rat_of_nat n * (8 / 10)\<rfloor>"
proof (cases "n mod 5 = 0")
  case True
  then obtain t where n: "n = 5 * t" by auto
  then have "t < 2 ^ 48" using assms by simp
  from binary64_product_multiple_of_5 [OF this] show ?thesis by (simp add: n)
next
  case False
  from binary64_product_bounds [OF assms False] show ?thesis
    by (simp add: floor_eq_iff)
qed

lemma binary64_product_less:
  assumes "n < 2 ^ 50"
  shows "rat_of_int r < binary64 (of_nat n * float_0_8) \<longleftrightarrow> rat_of_int r < of_nat n * (8 / 10)"
proof (cases "n mod 5 = 0")
  case True
  then obtain t where n: "n = 5 * t" by auto
  then have "t < 2 ^ 48" using assms by simp
  from binary64_product_multiple_of_5 [OF this] show ?thesis by (simp add: n)
next
  case False
  define k where "k = \<lfloor>rat_of_nat n * (8 / 10)\<rfloor>"
  note b = binary64_product_bounds [OF assms False, folded k_def]
  have "rat_of_int r < binary64 (of_nat n * float_0_8) \<longleftrightarrow> r \<le> k"
  proof
    assume "rat_of_int r < binary64 (of_nat n * float_0_8)"
    then have "rat_of_int r < of_int (k + 1)" using b by simp
    then show "r \<le> k" by simp
  next
    assume "r \<le> k"
    then have "rat_of_int r \<le> of_int k" by (simp only: of_int_le_iff)
    then show "rat_of_int r < binary64 (of_nat n * float_0_8)" using b by linarith
  qed
  moreover have "rat_of_int r < of_nat n * (8 / 10) \<longleftrightarrow> r \<le> k"
  proof
    assume "rat_of_int r < of_nat n * (8 / 10)"
    then have "rat_of_int r < of_int (k + 1)" using b by simp
    then show "r \<le> k" by simp
  next
    assume "r \<le> k"
    then have "rat_of_int r \<le> of_int k" by (simp only: of_int_le_iff)
    then show "rat_of_int r < of_nat n * (8 / 10)" using b by linarith
  qed
  ultimately show ?thesis by simp
qed

lemma max_num_jobs_cores_binary64_floor:
  assumes "n < 2 ^ 50"
  shows "\<lfloor>max_num_jobs_cores_binary64 n\<rfloor> = cpuCeiling n"
proof -
  have "n < 2 ^ 53" using assms by (rule less_trans) simp
  then show ?thesis
    by (simp add: max_num_jobs_cores_binary64_def cpuCeiling_def floor_max_1 binary64_of_nat
          binary64_product_floor [OF assms])
qed

lemma max_num_jobs_cores_binary64_less:
  assumes "n < 2 ^ 50"
  shows "rat_of_int r < max_num_jobs_cores_binary64 n \<longleftrightarrow> rat_of_int r < max_num_jobs_cores n"
proof -
  have "n < 2 ^ 53" using assms by (rule less_trans) simp
  then show ?thesis
    by (simp add: max_num_jobs_cores_binary64_def max_num_jobs_cores_def binary64_of_nat
          less_max_iff_disj binary64_product_less [OF assms])
qed

lemma free_memory_gb_binary64_eq:
  assumes "a < 2 ^ 53"
  shows "free_memory_gb_binary64 a = free_memory_gb a"
proof -
  have e: "rat_of_int (int a) * 2 powi (- 30) = rat_of_nat a / 1024 ^ 3"
    by (simp add: power_int_minus field_simps)
  have "binary64 (rat_of_int (int a) * 2 powi (- 30)) = rat_of_int (int a) * 2 powi (- 30)"
    using assms by (intro binary64_exact) simp_all
  then show ?thesis by (simp only: e free_memory_gb_binary64_def free_memory_gb_def)
qed

lemma max_num_jobs_memory_binary64_eq:
  assumes "a < 2 ^ 52"
  shows "max_num_jobs_memory_binary64 a = max_num_jobs_memory a"
proof -
  define D :: nat where "D = 9 * 1024 ^ 3"
  define m where "m = a div D"
  define q where "q = free_memory_gb a / 9"
  have a53: "a < 2 ^ 53" using assms by (rule less_trans) simp
  have q: "q = rat_of_nat a / rat_of_nat D" by (simp add: q_def free_memory_gb_def D_def)
  have q0: "0 \<le> q" by (simp add: q)
  have D0: "0 < rat_of_nat D" by (simp add: D_def)
  have "m * D \<le> a" by (simp add: m_def)
  then have "rat_of_nat (m * D) \<le> rat_of_nat a" by (simp only: of_nat_le_iff)
  then have lo: "rat_of_nat m \<le> q" using D0 by (simp add: q pos_le_divide_eq)
  have "a < (m + 1) * D" unfolding m_def D_def by (simp add: dividend_less_div_times)
  then have "a + 1 \<le> (m + 1) * D" by simp
  then have "rat_of_nat (a + 1) \<le> rat_of_nat ((m + 1) * D)" by (simp only: of_nat_le_iff)
  then have "rat_of_nat a \<le> (rat_of_nat m + 1) * rat_of_nat D - 1"
    by (simp add: algebra_simps)
  then have "q \<le> ((rat_of_nat m + 1) * rat_of_nat D - 1) / rat_of_nat D"
    using D0 by (simp only: q divide_le_cancel) simp
  also have "\<dots> = rat_of_nat m + 1 - 1 / rat_of_nat D"
    using D0 by (simp add: field_simps)
  also have "\<dots> \<le> rat_of_nat m + 1 - 1 / 2 ^ 34" by (simp add: D_def)
  finally have hi: "q \<le> rat_of_nat m + 1 - 1 / 2 ^ 34" .
  have "m * D < 2 ^ 52" using \<open>m * D \<le> a\<close> assms by (rule le_less_trans)
  then have m19: "m + 1 \<le> 2 ^ 19" by (simp add: D_def)
  have "binary64 (rat_of_int (int m)) \<le> binary64 q"
    using lo by (intro binary64_mono) simp_all
  moreover have "binary64 (rat_of_int (int m)) = rat_of_int (int m)"
    using m19 by (intro binary64_of_int) simp_all
  ultimately have 1: "rat_of_nat m \<le> binary64 q" by simp
  define y where "y = int (m + 1) * 2 ^ 34 - 1"
  have ye: "rat_of_int y * 2 powi (- 34) = rat_of_nat m + 1 - 1 / 2 ^ 34"
    by (simp add: y_def power_int_minus field_simps)
  have "int (m + 1) \<le> 2 ^ 19" using m19 by (simp only: of_nat_le_iff [where ?'a = int, symmetric]) simp
  then have "int (m + 1) * 2 ^ 34 \<le> 2 ^ 19 * 2 ^ 34" by (simp only: mult_le_cancel_right) simp
  then have y53: "0 \<le> y" "y < 2 ^ 53" by (simp_all add: y_def)
  have "binary64 q \<le> binary64 (rat_of_int y * 2 powi (- 34))"
    using hi q0 by (intro binary64_mono) (simp_all only: ye)
  also have "\<dots> = rat_of_int y * 2 powi (- 34)"
    using y53 by (rule binary64_exact)
  finally have "binary64 q \<le> rat_of_nat m + 1 - 1 / 2 ^ 34" by (simp only: ye)
  then have 2: "binary64 q < rat_of_nat m + 1" by simp
  have "0 \<le> binary64 q" using 1 by (rule order_trans [rotated]) simp
  moreover have "\<lfloor>binary64 q\<rfloor> = int m"
    using 1 2 by (simp add: floor_eq_iff)
  ultimately have "int_of_float (binary64 q) = int m" by (simp add: int_of_float_def)
  then show ?thesis
    by (simp add: max_num_jobs_memory_binary64_def free_memory_gb_binary64_eq [OF a53]
          q_def [symmetric] max_num_jobs_memory_eq m_def D_def)
qed

lemma floor_max_min: "\<lfloor>max 1 (min c (rat_of_int m))\<rfloor> = max 1 (min \<lfloor>c\<rfloor> m)"
proof -
  have "\<lfloor>min c (rat_of_int m)\<rfloor> = min \<lfloor>c\<rfloor> m"
    by (simp add: min_def le_floor_iff floor_less_iff) linarith
  then show ?thesis by (simp add: floor_max_1)
qed

lemma max_jobs_binary64_eq:
  assumes "n < 2 ^ 50" "a < 2 ^ 52"
  shows "max_jobs_binary64 n a = max_jobs n a"
proof -
  have "0 \<le> max 1 (min (max_num_jobs_cores_binary64 n) (rat_of_int (max_num_jobs_memory a)))"
    by simp
  then show ?thesis
    by (simp add: max_jobs_binary64_def int_of_float_def floor_max_min max_jobs_eq
          max_num_jobs_memory_binary64_eq [OF assms(2)]
          max_num_jobs_cores_binary64_floor [OF assms(1)])
qed

text \<open>
  On a host with fewer than \<open>2^50\<close> cores and less than \<open>2^52\<close> bytes (4 PiB) of available
  memory, the constructor with rounded floating-point operations does what the constructor
  in exact arithmetic does.
\<close>

theorem binary64_agrees:
  assumes "\<forall>n. cpu_count h = Some n \<longrightarrow> n < 2 ^ 50" and "available h < 2 ^ 52"
  shows "NinjaBuildExtension_init_binary64 h env = NinjaBuildExtension_init h env"
proof (cases "cpu_count h")
  case None
  then show ?thesis
    by (simp add: NinjaBuildExtension_init_binary64_def NinjaBuildExtension_init_def)
next
  case (Some n)
  then have n: "n < 2 ^ 50" using assms(1) by simp
  show ?thesis
    by (simp add: NinjaBuildExtension_init_binary64_def NinjaBuildExtension_init_def Some
          max_num_jobs_cores_binary64_less [OF n] max_jobs_binary64_eq [OF n assms(2)]
        split: sum.splits)
qed

section \<open>Calling the constructor again\<close>

text \<open>
  A second call finds the environment the first one left. On the same host it changes
  nothing more: the limit the first call wrote is the limit the second one computes.
\<close>

lemma NinjaBuildExtension_init_twice:
  assumes "NinjaBuildExtension_init h env = Inr env'"
  shows "NinjaBuildExtension_init h env' = Inr env'"
proof (cases "cpu_count h")
  case None
  then show ?thesis using assms by (simp add: NinjaBuildExtension_init_def)
next
  case (Some n)
  show ?thesis
  proof (cases "requested_jobs env")
    case (Inl e)
    then show ?thesis using assms Some by (simp add: NinjaBuildExtension_init_def)
  next
    case (Inr r)
    show ?thesis
    proof (cases "rat_of_int r < max_num_jobs_cores n")
      case True
      let ?j = "max_jobs n (available h)"
      have e: "env' = env(''MAX_JOBS'' \<mapsto> str ?j)"
        using assms True by (simp add: NinjaBuildExtension_init_eq [OF Some Inr])
      have "requested_jobs env' = Inr ?j" by (simp add: e requested_jobs_upd)
      from NinjaBuildExtension_init_eq [OF Some this]
      show ?thesis by (simp add: e)
    next
      case False
      then have "env' = env"
        using assms by (simp add: NinjaBuildExtension_init_eq [OF Some Inr])
      then show ?thesis using assms by simp
    qed
  qed
qed

section \<open>The claims about the job limit\<close>

text \<open>
  In the theorems below a valid input is a host whose \<open>os.cpu_count()\<close> is a number
  \<open>n \<ge> 1\<close> and an environment whose \<open>MAX_JOBS\<close> reads as an integer \<open>r \<ge> 1\<close> (unset
  reads as 1). The two policy constants of the specification are the literals of the
  code: \<open>0.8\<close> of the cores and 9 GiB for a job.
\<close>

text \<open>
  C1. For every valid input the job limit in force after the constructor, the final value
  of \<open>MAX_JOBS\<close>, is at least 1.
\<close>

theorem job_limit_at_least_one:
  assumes "cpu_count h = Some n" and "1 \<le> n"
    and "requested_jobs env = Inr r" and "1 \<le> r"
  shows "\<exists>j. final_max_jobs h env = Inr j \<and> 1 \<le> j"
proof (cases "rat_of_int r < max_num_jobs_cores n")
  case True
  then show ?thesis
    using assms(1,3) max_jobs_ge_1 [of n "available h"] by (simp add: final_max_jobs_eq)
next
  case False
  then show ?thesis
    using assms(1,3,4) by (simp add: final_max_jobs_eq)
qed

theorem job_limit_at_least_one_witness:
  "cpu_count \<lparr>cpu_count = Some 8, available = 3 * 1024 ^ 3\<rparr> = Some 8 \<and> (1::nat) \<le> 8 \<and>
   requested_jobs Map.empty = Inr 1 \<and> (1::int) \<le> 1 \<and>
   (\<exists>j. final_max_jobs \<lparr>cpu_count = Some 8, available = 3 * 1024 ^ 3\<rparr> Map.empty = Inr j \<and> 1 \<le> j)"
proof -
  have r: "requested_jobs Map.empty = Inr 1" by (simp add: requested_jobs_unset)
  show ?thesis
    using r job_limit_at_least_one
      [of "\<lparr>cpu_count = Some 8, available = 3 * 1024 ^ 3\<rparr>" 8 Map.empty 1]
    by simp
qed

text \<open>
  C2, as the specification states it: a request at or above
  \<open>cpuCeiling = max(1, floor(cpu_count * 0.8))\<close> is kept and the memory is not looked at.
  The code compares the request with the product before any rounding down. On 16 cores
  the product is 12.8 and \<open>cpuCeiling\<close> is 12, so a request of 12 is below the former and
  not below the latter: with no free memory the limit becomes 1, not 12, in exact
  arithmetic and in binary64.
\<close>

theorem request_at_floor_ceiling_counterexample:
  "requested_jobs [''MAX_JOBS'' \<mapsto> ''12''] = Inr 12 \<and>
   cpuCeiling 16 = 12 \<and>
   final_max_jobs \<lparr>cpu_count = Some 16, available = 0\<rparr> [''MAX_JOBS'' \<mapsto> ''12''] = Inr 1 \<and>
   NinjaBuildExtension_init_binary64 \<lparr>cpu_count = Some 16, available = 0\<rparr>
     [''MAX_JOBS'' \<mapsto> ''12''] = Inr [''MAX_JOBS'' \<mapsto> ''1'']"
proof -
  have s1: "str 1 = ''1''" by code_simp
  have s: "str 12 = ''12''" by code_simp
  have r: "requested_jobs [''MAX_JOBS'' \<mapsto> ''12''] = Inr 12"
    using requested_jobs_upd [of Map.empty 12] by (simp add: s)
  have c: "cpuCeiling 16 = 12" by (simp add: cpuCeiling_def floor_rat_numeral_div)
  have m: "rat_of_int 12 < max_num_jobs_cores 16" by (simp add: max_num_jobs_cores_def)
  have "final_max_jobs \<lparr>cpu_count = Some 16, available = 0\<rparr> [''MAX_JOBS'' \<mapsto> ''12''] =
        Inr (max_jobs 16 0)"
    using r m by (simp add: final_max_jobs_eq [of _ 16 _ 12])
  then have f: "final_max_jobs \<lparr>cpu_count = Some 16, available = 0\<rparr> [''MAX_JOBS'' \<mapsto> ''12'']
                = Inr 1"
    by (simp add: max_jobs_no_memory)
  have "NinjaBuildExtension_init \<lparr>cpu_count = Some 16, available = 0\<rparr>
          [''MAX_JOBS'' \<mapsto> ''12''] = Inr [''MAX_JOBS'' \<mapsto> ''1'']"
    using m
    by (simp only: NinjaBuildExtension_init_eq [OF _ r] host.simps if_True max_jobs_no_memory
          s1 fun_upd_upd)
  then have b: "NinjaBuildExtension_init_binary64 \<lparr>cpu_count = Some 16, available = 0\<rparr>
                  [''MAX_JOBS'' \<mapsto> ''12''] = Inr [''MAX_JOBS'' \<mapsto> ''1'']"
    by (simp add: binary64_agrees)
  show ?thesis using r c f b by (simp only: simp_thms)
qed

text \<open>
  C2, amended: for every valid input whose request is at or above the unrounded product
  \<open>cpu_count * 0.8\<close> (and so at or above \<open>max(1, cpu_count * 0.8)\<close>), the memory check
  is skipped: the environment is left as it is and the job limit is the request.
\<close>

theorem request_at_unrounded_ceiling_kept:
  assumes "cpu_count h = Some n" and "1 \<le> n"
    and "requested_jobs env = Inr r" and "1 \<le> r"
    and "of_nat n * (8 / 10) \<le> rat_of_int r"
  shows "NinjaBuildExtension_init h env = Inr env \<and> final_max_jobs h env = Inr r"
proof -
  have "\<not> rat_of_int r < max_num_jobs_cores n"
    using assms(4,5) by (simp add: max_num_jobs_cores_def)
  then show ?thesis
    using assms(1,3) by (simp add: final_max_jobs_def NinjaBuildExtension_init_def)
qed

theorem request_at_unrounded_ceiling_kept_witness:
  "cpu_count \<lparr>cpu_count = Some 16, available = 0\<rparr> = Some 16 \<and> (1::nat) \<le> 16 \<and>
   requested_jobs [''MAX_JOBS'' \<mapsto> ''13''] = Inr 13 \<and> (1::int) \<le> 13 \<and>
   of_nat 16 * (8 / 10) \<le> rat_of_int 13 \<and>
   NinjaBuildExtension_init \<lparr>cpu_count = Some 16, available = 0\<rparr> [''MAX_JOBS'' \<mapsto> ''13''] =
     Inr [''MAX_JOBS'' \<mapsto> ''13''] \<and>
   final_max_jobs \<lparr>cpu_count = Some 16, available = 0\<rparr> [''MAX_JOBS'' \<mapsto> ''13''] = Inr 13"
proof -
  have s: "str 13 = ''13''" by code_simp
  have r: "requested_jobs [''MAX_JOBS'' \<mapsto> ''13''] = Inr 13"
    using requested_jobs_upd [of Map.empty 13] by (simp add: s)
  show ?thesis
    using r request_at_unrounded_ceiling_kept
      [of "\<lparr>cpu_count = Some 16, available = 0\<rparr>" 16 "[''MAX_JOBS'' \<mapsto> ''13'']" 13]
    by simp
qed

text \<open>
  C3. For every valid input with a request below \<open>cpuCeiling\<close> and no available memory,
  the job limit is exactly 1.
\<close>

theorem no_memory_gives_one_job:
  assumes "cpu_count h = Some n" and "1 \<le> n"
    and "requested_jobs env = Inr r" and "1 \<le> r"
    and "r < cpuCeiling n" and "available h = 0"
  shows "final_max_jobs h env = Inr 1"
  using assms(1,3,6) below_cpuCeiling [OF assms(5)]
  by (simp add: final_max_jobs_eq max_jobs_no_memory)

theorem no_memory_gives_one_job_witness:
  "cpu_count \<lparr>cpu_count = Some 32, available = 0\<rparr> = Some 32 \<and> (1::nat) \<le> 32 \<and>
   requested_jobs [''MAX_JOBS'' \<mapsto> ''6''] = Inr 6 \<and> (1::int) \<le> 6 \<and>
   6 < cpuCeiling 32 \<and> available \<lparr>cpu_count = Some 32, available = 0\<rparr> = 0 \<and>
   final_max_jobs \<lparr>cpu_count = Some 32, available = 0\<rparr> [''MAX_JOBS'' \<mapsto> ''6''] = Inr 1"
proof -
  have s: "str 6 = ''6''" by code_simp
  have r: "requested_jobs [''MAX_JOBS'' \<mapsto> ''6''] = Inr 6"
    using requested_jobs_upd [of Map.empty 6] by (simp add: s)
  have c: "6 < cpuCeiling 32" by (simp add: cpuCeiling_def floor_rat_numeral_div)
  show ?thesis
    using r c no_memory_gives_one_job
      [of "\<lparr>cpu_count = Some 32, available = 0\<rparr>" 32 "[''MAX_JOBS'' \<mapsto> ''6'']" 6]
    by simp
qed

text \<open>
  C4. For every valid input with a request below \<open>cpuCeiling\<close>, so that the throttling is
  active, the job limit does not exceed \<open>cpuCeiling = max(1, floor(cpu_count * 0.8))\<close>.
\<close>

theorem throttled_limit_at_most_cpuCeiling:
  assumes "cpu_count h = Some n" and "1 \<le> n"
    and "requested_jobs env = Inr r" and "1 \<le> r"
    and "r < cpuCeiling n"
  shows "\<exists>j. final_max_jobs h env = Inr j \<and> j \<le> cpuCeiling n"
  using assms(1,3) below_cpuCeiling [OF assms(5)] max_jobs_le_cpuCeiling [of n "available h"]
  by (simp add: final_max_jobs_eq)

theorem throttled_limit_at_most_cpuCeiling_witness:
  "cpu_count \<lparr>cpu_count = Some 4, available = 1024 ^ 4\<rparr> = Some 4 \<and> (1::nat) \<le> 4 \<and>
   requested_jobs [''MAX_JOBS'' \<mapsto> ''2''] = Inr 2 \<and> (1::int) \<le> 2 \<and>
   2 < cpuCeiling 4 \<and>
   (\<exists>j. final_max_jobs \<lparr>cpu_count = Some 4, available = 1024 ^ 4\<rparr> [''MAX_JOBS'' \<mapsto> ''2''] = Inr j
        \<and> j \<le> cpuCeiling 4)"
proof -
  have s: "str 2 = ''2''" by code_simp
  have r: "requested_jobs [''MAX_JOBS'' \<mapsto> ''2''] = Inr 2"
    using requested_jobs_upd [of Map.empty 2] by (simp add: s)
  have c: "2 < cpuCeiling 4" by (simp add: cpuCeiling_def floor_rat_numeral_div)
  show ?thesis
    using r c throttled_limit_at_most_cpuCeiling
      [of "\<lparr>cpu_count = Some 4, available = 1024 ^ 4\<rparr>" 4 "[''MAX_JOBS'' \<mapsto> ''2'']" 2]
    by simp
qed

text \<open>
  C5. Two valid inputs with the same request and the same number of cores: the one with
  at least as much available memory gets a job limit at least as large.
\<close>

theorem job_limit_monotone_in_memory:
  assumes "cpu_count h1 = Some n" and "cpu_count h2 = Some n" and "1 \<le> n"
    and "requested_jobs env = Inr r" and "1 \<le> r"
    and "available h1 \<le> available h2"
  shows "\<exists>j1 j2. final_max_jobs h1 env = Inr j1 \<and> final_max_jobs h2 env = Inr j2 \<and> j1 \<le> j2"
proof (cases "rat_of_int r < max_num_jobs_cores n")
  case True
  then show ?thesis
    using assms(1,2,4) max_jobs_mono [OF assms(6), of n] by (simp add: final_max_jobs_eq)
next
  case False
  then show ?thesis
    using assms(1,2,4) by (simp add: final_max_jobs_eq)
qed

theorem job_limit_monotone_in_memory_witness:
  "cpu_count \<lparr>cpu_count = Some 64, available = 20 * 1024 ^ 3\<rparr> = Some 64 \<and>
   cpu_count \<lparr>cpu_count = Some 64, available = 100 * 1024 ^ 3\<rparr> = Some 64 \<and> (1::nat) \<le> 64 \<and>
   requested_jobs [''MAX_JOBS'' \<mapsto> ''3''] = Inr 3 \<and> (1::int) \<le> 3 \<and>
   available \<lparr>cpu_count = Some 64, available = 20 * 1024 ^ 3\<rparr>
     \<le> available \<lparr>cpu_count = Some 64, available = 100 * 1024 ^ 3\<rparr> \<and>
   (\<exists>j1 j2.
      final_max_jobs \<lparr>cpu_count = Some 64, available = 20 * 1024 ^ 3\<rparr> [''MAX_JOBS'' \<mapsto> ''3'']
        = Inr j1 \<and>
      final_max_jobs \<lparr>cpu_count = Some 64, available = 100 * 1024 ^ 3\<rparr> [''MAX_JOBS'' \<mapsto> ''3'']
        = Inr j2 \<and>
      j1 \<le> j2)"
proof -
  have s: "str 3 = ''3''" by code_simp
  have r: "requested_jobs [''MAX_JOBS'' \<mapsto> ''3''] = Inr 3"
    using requested_jobs_upd [of Map.empty 3] by (simp add: s)
  show ?thesis
    using r job_limit_monotone_in_memory
      [of "\<lparr>cpu_count = Some 64, available = 20 * 1024 ^ 3\<rparr>" 64
          "\<lparr>cpu_count = Some 64, available = 100 * 1024 ^ 3\<rparr>" "[''MAX_JOBS'' \<mapsto> ''3'']" 3]
    by simp
qed

text \<open>
  C6. On 16 cores with a request of 1, 40 GiB of available memory and 9 GiB for a job, the
  throttling applies (1 is below the core bound, \<open>cpuCeiling\<close> is 12, the memory bound
  is 4), the constructor sets \<open>MAX_JOBS\<close> to \<open>4\<close> and the job limit is exactly 4, in
  exact arithmetic and in binary64.
\<close>

theorem example_16_cores_40_GiB:
  "requested_jobs [''MAX_JOBS'' \<mapsto> ''1''] = Inr 1 \<and>
   rat_of_int 1 < max_num_jobs_cores 16 \<and>
   cpuCeiling 16 = 12 \<and>
   max_num_jobs_memory (40 * 1024 ^ 3) = 4 \<and>
   NinjaBuildExtension_init \<lparr>cpu_count = Some 16, available = 40 * 1024 ^ 3\<rparr>
     [''MAX_JOBS'' \<mapsto> ''1''] = Inr [''MAX_JOBS'' \<mapsto> ''4''] \<and>
   final_max_jobs \<lparr>cpu_count = Some 16, available = 40 * 1024 ^ 3\<rparr>
     [''MAX_JOBS'' \<mapsto> ''1''] = Inr 4 \<and>
   NinjaBuildExtension_init_binary64 \<lparr>cpu_count = Some 16, available = 40 * 1024 ^ 3\<rparr>
     [''MAX_JOBS'' \<mapsto> ''1''] = Inr [''MAX_JOBS'' \<mapsto> ''4'']"
proof -
  have s1: "str 1 = ''1''" by code_simp
  have s4: "str 4 = ''4''" by code_simp
  have r: "requested_jobs [''MAX_JOBS'' \<mapsto> ''1''] = Inr 1"
    using requested_jobs_upd [of Map.empty 1] by (simp add: s1)
  have t: "rat_of_int 1 < max_num_jobs_cores 16" by (simp add: max_num_jobs_cores_def)
  have c: "cpuCeiling 16 = 12" by (simp add: cpuCeiling_def floor_rat_numeral_div)
  have m: "max_num_jobs_memory (40 * 1024 ^ 3) = 4" by (simp add: max_num_jobs_memory_eq)
  have j: "max_jobs 16 (40 * 1024 ^ 3) = 4" by (simp only: max_jobs_eq c m)
  have i: "NinjaBuildExtension_init \<lparr>cpu_count = Some 16, available = 40 * 1024 ^ 3\<rparr>
             [''MAX_JOBS'' \<mapsto> ''1''] = Inr [''MAX_JOBS'' \<mapsto> ''4'']"
    using t
    by (simp only: NinjaBuildExtension_init_eq [OF _ r] host.simps if_True j s4 fun_upd_upd)
  have f: "final_max_jobs \<lparr>cpu_count = Some 16, available = 40 * 1024 ^ 3\<rparr>
             [''MAX_JOBS'' \<mapsto> ''1''] = Inr 4"
    using t by (simp only: final_max_jobs_eq [OF _ r] host.simps if_True j)
  have b: "NinjaBuildExtension_init_binary64 \<lparr>cpu_count = Some 16, available = 40 * 1024 ^ 3\<rparr>
             [''MAX_JOBS'' \<mapsto> ''1''] = Inr [''MAX_JOBS'' \<mapsto> ''4'']"
    unfolding i [symmetric] by (rule binary64_agrees) simp_all
  show ?thesis using r t c m i f b by (simp only: simp_thms)
qed

text \<open>
  C7, as the specification states it: the computation leaves the environment it was called
  with unchanged. The constructor hands its result over by writing it: on 8 cores with
  20 GiB available and \<open>MAX_JOBS=1\<close>, the environment it leaves has \<open>MAX_JOBS=2\<close>.
\<close>

theorem environment_unchanged_counterexample:
  "NinjaBuildExtension_init \<lparr>cpu_count = Some 8, available = 20 * 1024 ^ 3\<rparr>
     [''MAX_JOBS'' \<mapsto> ''1''] = Inr [''MAX_JOBS'' \<mapsto> ''2''] \<and>
   [''MAX_JOBS'' \<mapsto> ''1''] ''MAX_JOBS'' = Some ''1'' \<and>
   [''MAX_JOBS'' \<mapsto> ''2''] ''MAX_JOBS'' = Some ''2'' \<and>
   ''1'' \<noteq> ''2'' \<and>
   NinjaBuildExtension_init_binary64 \<lparr>cpu_count = Some 8, available = 20 * 1024 ^ 3\<rparr>
     [''MAX_JOBS'' \<mapsto> ''1''] = Inr [''MAX_JOBS'' \<mapsto> ''2'']"
proof -
  have s1: "str 1 = ''1''" by code_simp
  have s2: "str 2 = ''2''" by code_simp
  have r: "requested_jobs [''MAX_JOBS'' \<mapsto> ''1''] = Inr 1"
    using requested_jobs_upd [of Map.empty 1] by (simp add: s1)
  have t: "rat_of_int 1 < max_num_jobs_cores 8" by (simp add: max_num_jobs_cores_def)
  have c: "cpuCeiling 8 = 6" by (simp add: cpuCeiling_def floor_rat_numeral_div)
  have m: "max_num_jobs_memory (20 * 1024 ^ 3) = 2" by (simp add: max_num_jobs_memory_eq)
  have j: "max_jobs 8 (20 * 1024 ^ 3) = 2" by (simp only: max_jobs_eq c m)
  have i: "NinjaBuildExtension_init \<lparr>cpu_count = Some 8, available = 20 * 1024 ^ 3\<rparr>
             [''MAX_JOBS'' \<mapsto> ''1''] = Inr [''MAX_JOBS'' \<mapsto> ''2'']"
    using t
    by (simp only: NinjaBuildExtension_init_eq [OF _ r] host.simps if_True j s2 fun_upd_upd)
  have b: "NinjaBuildExtension_init_binary64 \<lparr>cpu_count = Some 8, available = 20 * 1024 ^ 3\<rparr>
             [''MAX_JOBS'' \<mapsto> ''1''] = Inr [''MAX_JOBS'' \<mapsto> ''2'']"
    unfolding i [symmetric] by (rule binary64_agrees) simp_all
  show ?thesis using i b by simp
qed

text \<open>
  C7, amended: the only state the constructor changes is the entry \<open>MAX_JOBS\<close> of the
  environment. Whenever it returns, every other variable has the value it had before, and
  the environment is either the one it was called with or that one with \<open>MAX_JOBS\<close> set
  to the computed limit.
\<close>

theorem only_MAX_JOBS_written:
  assumes "NinjaBuildExtension_init h env = Inr env'" and "k \<noteq> ''MAX_JOBS''"
  shows "env' k = env k \<and>
         (env' = env \<or> (\<exists>n. cpu_count h = Some n \<and>
                          env' = env(''MAX_JOBS'' \<mapsto> str (max_jobs n (available h)))))"
proof (cases "cpu_count h")
  case None
  then show ?thesis using assms(1) by (simp add: NinjaBuildExtension_init_def)
next
  case (Some n)
  show ?thesis
  proof (cases "requested_jobs env")
    case (Inl e)
    then show ?thesis using assms(1) Some by (simp add: NinjaBuildExtension_init_def)
  next
    case (Inr r)
    show ?thesis
      using assms NinjaBuildExtension_init_eq [OF Some Inr] Some
      by (cases "rat_of_int r < max_num_jobs_cores n") auto
  qed
qed

theorem only_MAX_JOBS_written_witness:
  "NinjaBuildExtension_init \<lparr>cpu_count = Some 2, available = 0\<rparr> [''CK_DIR'' \<mapsto> ''/ck'']
     = Inr [''CK_DIR'' \<mapsto> ''/ck'', ''MAX_JOBS'' \<mapsto> ''1''] \<and>
   ''CK_DIR'' \<noteq> ''MAX_JOBS'' \<and>
   [''CK_DIR'' \<mapsto> ''/ck'', ''MAX_JOBS'' \<mapsto> ''1''] ''CK_DIR'' = [''CK_DIR'' \<mapsto> ''/ck''] ''CK_DIR''"
proof -
  have s1: "str 1 = ''1''" by code_simp
  have r: "requested_jobs [''CK_DIR'' \<mapsto> ''/ck''] = Inr 1"
    by (rule requested_jobs_unset) simp
  have t: "rat_of_int 1 < max_num_jobs_cores 2" by (simp add: max_num_jobs_cores_def)
  have i: "NinjaBuildExtension_init \<lparr>cpu_count = Some 2, available = 0\<rparr> [''CK_DIR'' \<mapsto> ''/ck'']
             = Inr [''CK_DIR'' \<mapsto> ''/ck'', ''MAX_JOBS'' \<mapsto> ''1'']"
    using t
    by (simp only: NinjaBuildExtension_init_eq [OF _ r] host.simps if_True max_jobs_no_memory s1)
  show ?thesis
    using i only_MAX_JOBS_written [OF i, of "''CK_DIR''"] by simp
qed

text \<open>
  C8, as the specification states it: two calls with identical inputs give equal results,
  and no state is kept between calls that could change the outcome. The constructor does
  keep state between calls, the entry \<open>MAX_JOBS\<close> it writes, and a later call reads it
  as its request. On 5 cores (core bound 4.0) a call with 100 GiB available turns an unset
  \<open>MAX_JOBS\<close> into \<open>4\<close>; a later call with no available memory then finds a request of
  4, which is not below 4.0, and leaves the limit at 4, where the same call on an unset
  \<open>MAX_JOBS\<close> gives 1.
\<close>

theorem no_state_retained_counterexample:
  "NinjaBuildExtension_init \<lparr>cpu_count = Some 5, available = 100 * 1024 ^ 3\<rparr> Map.empty
     = Inr [''MAX_JOBS'' \<mapsto> ''4''] \<and>
   final_max_jobs \<lparr>cpu_count = Some 5, available = 0\<rparr> [''MAX_JOBS'' \<mapsto> ''4''] = Inr 4 \<and>
   final_max_jobs \<lparr>cpu_count = Some 5, available = 0\<rparr> Map.empty = Inr 1 \<and>
   NinjaBuildExtension_init_binary64 \<lparr>cpu_count = Some 5, available = 100 * 1024 ^ 3\<rparr> Map.empty
     = Inr [''MAX_JOBS'' \<mapsto> ''4''] \<and>
   NinjaBuildExtension_init_binary64 \<lparr>cpu_count = Some 5, available = 0\<rparr> [''MAX_JOBS'' \<mapsto> ''4'']
     = Inr [''MAX_JOBS'' \<mapsto> ''4''] \<and>
   NinjaBuildExtension_init_binary64 \<lparr>cpu_count = Some 5, available = 0\<rparr> Map.empty
     = Inr [''MAX_JOBS'' \<mapsto> ''1'']"
proof -
  have s1: "str 1 = ''1''" by code_simp
  have s4: "str 4 = ''4''" by code_simp
  have r0: "requested_jobs Map.empty = Inr 1" by (simp add: requested_jobs_unset)
  have r4: "requested_jobs [''MAX_JOBS'' \<mapsto> ''4''] = Inr 4"
    using requested_jobs_upd [of Map.empty 4] by (simp add: s4)
  have t1: "rat_of_int 1 < max_num_jobs_cores 5" by (simp add: max_num_jobs_cores_def)
  have t4: "\<not> rat_of_int 4 < max_num_jobs_cores 5" by (simp add: max_num_jobs_cores_def)
  have c: "cpuCeiling 5 = 4" by (simp add: cpuCeiling_def)
  have m: "max_num_jobs_memory (100 * 1024 ^ 3) = 11" by (simp add: max_num_jobs_memory_eq)
  have j: "max_jobs 5 (100 * 1024 ^ 3) = 4" by (simp only: max_jobs_eq c m)
  have i1: "NinjaBuildExtension_init \<lparr>cpu_count = Some 5, available = 100 * 1024 ^ 3\<rparr> Map.empty
              = Inr [''MAX_JOBS'' \<mapsto> ''4'']"
    using t1 by (simp only: NinjaBuildExtension_init_eq [OF _ r0] host.simps if_True j s4)
  have i2: "NinjaBuildExtension_init \<lparr>cpu_count = Some 5, available = 0\<rparr> [''MAX_JOBS'' \<mapsto> ''4'']
              = Inr [''MAX_JOBS'' \<mapsto> ''4'']"
    using t4 by (simp only: NinjaBuildExtension_init_eq [OF _ r4] host.simps if_False)
  have i3: "NinjaBuildExtension_init \<lparr>cpu_count = Some 5, available = 0\<rparr> Map.empty
              = Inr [''MAX_JOBS'' \<mapsto> ''1'']"
    using t1
    by (simp only: NinjaBuildExtension_init_eq [OF _ r0] host.simps if_True max_jobs_no_memory s1)
  have f2: "final_max_jobs \<lparr>cpu_count = Some 5, available = 0\<rparr> [''MAX_JOBS'' \<mapsto> ''4''] = Inr 4"
    by (simp only: final_max_jobs_def i2 r4 sum.case)
  have r1: "requested_jobs [''MAX_JOBS'' \<mapsto> ''1''] = Inr 1"
    using requested_jobs_upd [of Map.empty 1] by (simp add: s1)
  have f3: "final_max_jobs \<lparr>cpu_count = Some 5, available = 0\<rparr> Map.empty = Inr 1"
    by (simp only: final_max_jobs_def i3 r1 sum.case)
  have b1: "NinjaBuildExtension_init_binary64 \<lparr>cpu_count = Some 5, available = 100 * 1024 ^ 3\<rparr>
              Map.empty = Inr [''MAX_JOBS'' \<mapsto> ''4'']"
    unfolding i1 [symmetric] by (rule binary64_agrees) simp_all
  have b2: "NinjaBuildExtension_init_binary64 \<lparr>cpu_count = Some 5, available = 0\<rparr>
              [''MAX_JOBS'' \<mapsto> ''4''] = Inr [''MAX_JOBS'' \<mapsto> ''4'']"
    unfolding i2 [symmetric] by (rule binary64_agrees) simp_all
  have b3: "NinjaBuildExtension_init_binary64 \<lparr>cpu_count = Some 5, available = 0\<rparr> Map.empty
              = Inr [''MAX_JOBS'' \<mapsto> ''1'']"
    unfolding i3 [symmetric] by (rule binary64_agrees) simp_all
  show ?thesis using i1 f2 f3 b1 b2 b3 by (simp only: simp_thms)
qed

text \<open>
  C8, amended: two calls on the same host snapshot whose environments hold the same
  \<open>MAX_JOBS\<close> entry at the time of the call end in the same way, with the same exception
  or with the same job limit and the same \<open>MAX_JOBS\<close> entry left behind, whatever else
  the environments hold. The entry \<open>MAX_JOBS\<close> is the one state a call leaves for the
  next; on an unchanged host snapshot a second call leaves the environment as the first
  one left it.
\<close>

theorem outcome_determined_by_host_and_MAX_JOBS:
  assumes "env1 ''MAX_JOBS'' = env2 ''MAX_JOBS''"
  shows "final_max_jobs h env1 = final_max_jobs h env2 \<and>
         map_sum id (\<lambda>e. e ''MAX_JOBS'') (NinjaBuildExtension_init h env1) =
         map_sum id (\<lambda>e. e ''MAX_JOBS'') (NinjaBuildExtension_init h env2) \<and>
         (NinjaBuildExtension_init h env1 = Inr env1' \<longrightarrow>
            NinjaBuildExtension_init h env1' = Inr env1')"
proof -
  have r: "requested_jobs env1 = requested_jobs env2"
    using assms by (simp add: requested_jobs_def environ_get_def)
  have "final_max_jobs h env1 = final_max_jobs h env2 \<and>
        map_sum id (\<lambda>e. e ''MAX_JOBS'') (NinjaBuildExtension_init h env1) =
        map_sum id (\<lambda>e. e ''MAX_JOBS'') (NinjaBuildExtension_init h env2)"
  proof (cases "cpu_count h")
    case None
    then show ?thesis by (simp add: final_max_jobs_def NinjaBuildExtension_init_def)
  next
    case (Some n)
    show ?thesis
    proof (cases "requested_jobs env2")
      case (Inl e)
      then show ?thesis
        using r Some by (simp add: final_max_jobs_def NinjaBuildExtension_init_def)
    next
      case (Inr q)
      then show ?thesis
        using r Some assms by (simp add: final_max_jobs_eq NinjaBuildExtension_init_eq)
    qed
  qed
  then show ?thesis using NinjaBuildExtension_init_twice [of h env1 env1'] by simp
qed

theorem outcome_determined_by_host_and_MAX_JOBS_witness:
  "[''GPU_ARCHS'' \<mapsto> ''gfx942'', ''MAX_JOBS'' \<mapsto> ''2''] ''MAX_JOBS'' =
     [''MAX_JOBS'' \<mapsto> ''2''] ''MAX_JOBS'' \<and>
   final_max_jobs \<lparr>cpu_count = Some 24, available = 64 * 1024 ^ 3\<rparr>
     [''GPU_ARCHS'' \<mapsto> ''gfx942'', ''MAX_JOBS'' \<mapsto> ''2''] =
   final_max_jobs \<lparr>cpu_count = Some 24, available = 64 * 1024 ^ 3\<rparr> [''MAX_JOBS'' \<mapsto> ''2''] \<and>
   NinjaBuildExtension_init \<lparr>cpu_count = Some 24, available = 64 * 1024 ^ 3\<rparr>
     [''GPU_ARCHS'' \<mapsto> ''gfx942'', ''MAX_JOBS'' \<mapsto> ''2''] =
     Inr [''GPU_ARCHS'' \<mapsto> ''gfx942'', ''MAX_JOBS'' \<mapsto> ''7''] \<and>
   NinjaBuildExtension_init \<lparr>cpu_count = Some 24, available = 64 * 1024 ^ 3\<rparr>
     [''GPU_ARCHS'' \<mapsto> ''gfx942'', ''MAX_JOBS'' \<mapsto> ''7''] =
     Inr [''GPU_ARCHS'' \<mapsto> ''gfx942'', ''MAX_JOBS'' \<mapsto> ''7'']"
proof -
  have s2: "str 2 = ''2''" by code_simp
  have s7: "str 7 = ''7''" by code_simp
  have e: "[''GPU_ARCHS'' \<mapsto> ''gfx942'', ''MAX_JOBS'' \<mapsto> ''2''] ''MAX_JOBS'' =
           [''MAX_JOBS'' \<mapsto> ''2''] ''MAX_JOBS''"
    by simp
  have r: "requested_jobs [''GPU_ARCHS'' \<mapsto> ''gfx942'', ''MAX_JOBS'' \<mapsto> ''2''] = Inr 2"
    using requested_jobs_upd [of "[''GPU_ARCHS'' \<mapsto> ''gfx942'']" 2] by (simp add: s2)
  have t: "rat_of_int 2 < max_num_jobs_cores 24" by (simp add: max_num_jobs_cores_def)
  have c: "cpuCeiling 24 = 19" by (simp add: cpuCeiling_def floor_rat_numeral_div)
  have m: "max_num_jobs_memory (64 * 1024 ^ 3) = 7" by (simp add: max_num_jobs_memory_eq)
  have j: "max_jobs 24 (64 * 1024 ^ 3) = 7" by (simp only: max_jobs_eq c m)
  have i: "NinjaBuildExtension_init \<lparr>cpu_count = Some 24, available = 64 * 1024 ^ 3\<rparr>
             [''GPU_ARCHS'' \<mapsto> ''gfx942'', ''MAX_JOBS'' \<mapsto> ''2''] =
           Inr [''GPU_ARCHS'' \<mapsto> ''gfx942'', ''MAX_JOBS'' \<mapsto> ''7'']"
    using t
    by (simp only: NinjaBuildExtension_init_eq [OF _ r] host.simps if_True j s7 fun_upd_upd)
  show ?thesis
    using e i outcome_determined_by_host_and_MAX_JOBS
      [of "[''GPU_ARCHS'' \<mapsto> ''gfx942'', ''MAX_JOBS'' \<mapsto> ''2'']" "[''MAX_JOBS'' \<mapsto> ''2'']"
          "\<lparr>cpu_count = Some 24, available = 64 * 1024 ^ 3\<rparr>"
          "[''GPU_ARCHS'' \<mapsto> ''gfx942'', ''MAX_JOBS'' \<mapsto> ''7'']"]
    by (simp only: simp_thms)
qed

text \<open>
  C9. An override of 0 is outside the valid inputs of the specification. Whenever
  \<open>os.cpu_count()\<close> is a number and \<open>MAX_JOBS\<close> reads as an integer \<open>r \<ge> 0\<close>, the job
  limit after the constructor is at least 1; and for \<open>r = 0\<close> the throttling branch runs,
  since the core bound is at least 1, and writes the computed limit to \<open>MAX_JOBS\<close>.
\<close>

theorem nonnegative_override_limit_at_least_one:
  assumes "cpu_count h = Some n" and "requested_jobs env = Inr r" and "0 \<le> r"
  shows "(\<exists>j. final_max_jobs h env = Inr j \<and> 1 \<le> j) \<and>
         (r = 0 \<longrightarrow>
            NinjaBuildExtension_init h env =
              Inr (env(''MAX_JOBS'' \<mapsto> str (max_jobs n (available h)))))"
proof (cases "rat_of_int r < max_num_jobs_cores n")
  case True
  then show ?thesis
    using assms(1,2) max_jobs_ge_1 [of n "available h"]
    by (simp add: final_max_jobs_eq NinjaBuildExtension_init_eq)
next
  case False
  then have "1 \<le> rat_of_int r"
    using max_num_jobs_cores_ge_1 [of n] by linarith
  then have "1 \<le> r" by simp
  then show ?thesis
    using False assms(1,2) by (simp add: final_max_jobs_eq)
qed

theorem nonnegative_override_limit_at_least_one_witness:
  "cpu_count \<lparr>cpu_count = Some 1, available = 512 * 1024 ^ 3\<rparr> = Some 1 \<and>
   requested_jobs [''MAX_JOBS'' \<mapsto> ''0''] = Inr 0 \<and> (0::int) \<le> 0 \<and>
   (\<exists>j. final_max_jobs \<lparr>cpu_count = Some 1, available = 512 * 1024 ^ 3\<rparr>
          [''MAX_JOBS'' \<mapsto> ''0''] = Inr j \<and> 1 \<le> j) \<and>
   NinjaBuildExtension_init \<lparr>cpu_count = Some 1, available = 512 * 1024 ^ 3\<rparr>
     [''MAX_JOBS'' \<mapsto> ''0''] =
   Inr ([''MAX_JOBS'' \<mapsto> ''0'']
        (''MAX_JOBS'' \<mapsto> str (max_jobs 1 (available \<lparr>cpu_count = Some 1, available = 512 * 1024 ^ 3\<rparr>))))"
proof -
  have s: "str 0 = ''0''" by code_simp
  have r: "requested_jobs [''MAX_JOBS'' \<mapsto> ''0''] = Inr 0"
    using requested_jobs_upd [of Map.empty 0] by (simp add: s)
  show ?thesis
    using r nonnegative_override_limit_at_least_one
      [of "\<lparr>cpu_count = Some 1, available = 512 * 1024 ^ 3\<rparr>" 1 "[''MAX_JOBS'' \<mapsto> ''0'']" 0]
    by simp
qed

section \<open>The claim about the build target\<close>

text \<open>
  C10. When \<open>BUILD_TARGET\<close> is \<open>cuda\<close>, or is \<open>auto\<close> (the default) and torch is not a
  HIP build, the script raises \<open>NotImplementedError("Only ROCM is supported")\<close> and
  \<open>ext_modules\<close> is still the empty list.
\<close>

theorem non_rocm_target_not_implemented:
  assumes "BUILD_TARGET env = ''cuda'' \<or> (BUILD_TARGET env = ''auto'' \<and> \<not> IS_HIP_EXTENSION t)"
  shows "IS_ROCM t env = Some False \<and>
         ext_modules t env = (Some (NotImplementedError ''Only ROCM is supported''), [])"
proof -
  have "IS_ROCM t env = Some False"
    using assms by (auto simp: IS_ROCM_def)
  then show ?thesis by (simp add: ext_modules_def)
qed

theorem non_rocm_target_not_implemented_witness:
  "BUILD_TARGET [''BUILD_TARGET'' \<mapsto> ''cuda''] = ''cuda'' \<and>
   ext_modules
     \<lparr>IS_HIP_EXTENSION = True, torch_version = ''2.3.0+rocm6.0'',
      torch_version_hip = Some ''6.0.32830-d62f6a171'', this_dir = ''/aiter'',
      path_exists = (\<lambda>p. True), valid_version = (\<lambda>v. True),
      version_gt = (\<lambda>v w. True), version_lt = (\<lambda>v w. True), has_float8_e4m3fnuz = True\<rparr>
     [''BUILD_TARGET'' \<mapsto> ''cuda''] =
   (Some (NotImplementedError ''Only ROCM is supported''), []) \<and>
   BUILD_TARGET Map.empty = ''auto'' \<and>
   ext_modules
     \<lparr>IS_HIP_EXTENSION = False, torch_version = ''2.3.0+cu121'',
      torch_version_hip = None, this_dir = ''/aiter'',
      path_exists = (\<lambda>p. True), valid_version = (\<lambda>v. True),
      version_gt = (\<lambda>v w. True), version_lt = (\<lambda>v w. True), has_float8_e4m3fnuz = True\<rparr>
     Map.empty =
   (Some (NotImplementedError ''Only ROCM is supported''), [])"
proof -
  have b: "BUILD_TARGET [''BUILD_TARGET'' \<mapsto> ''cuda''] = ''cuda''"
    by (simp add: BUILD_TARGET_def environ_get_def)
  have a: "BUILD_TARGET Map.empty = ''auto''"
    by (simp add: BUILD_TARGET_def environ_get_def)
  show ?thesis
    using a b
      non_rocm_target_not_implemented
        [of "[''BUILD_TARGET'' \<mapsto> ''cuda'']"
            "\<lparr>IS_HIP_EXTENSION = True, torch_version = ''2.3.0+rocm6.0'',
              torch_version_hip = Some ''6.0.32830-d62f6a171'', this_dir = ''/aiter'',
              path_exists = (\<lambda>p. True), valid_version = (\<lambda>v. True),
              version_gt = (\<lambda>v w. True), version_lt = (\<lambda>v w. True),
              has_float8_e4m3fnuz = True\<rparr>"]
      non_rocm_target_not_implemented
        [of Map.empty
            "\<lparr>IS_HIP_EXTENSION = False, torch_version = ''2.3.0+cu121'',
              torch_version_hip = None, this_dir = ''/aiter'',
              path_exists = (\<lambda>p. True), valid_version = (\<lambda>v. True),
              version_gt = (\<lambda>v w. True), version_lt = (\<lambda>v w. True),
              has_float8_e4m3fnuz = True\<rparr>"]
    by simp
qed

end
